theory Spec2Isabelle
  imports Complex_Main
begin

section \<open>Python string operations used by map.py\<close>

text \<open>
  Python strings are modelled as \<open>string\<close>: one \<open>char\<close> per code point, for text whose
  code points are below 256 (the IMF artifact is ASCII). \<open>is_space\<close> is \<open>str.isspace\<close> on
  that range, which is also what the regular expression class \<open>\s\<close> matches there.
\<close>

definition is_space :: "char \<Rightarrow> bool" where
  "is_space c = (c \<in> set [CHR 0x09, CHR 0x0A, CHR 0x0B, CHR 0x0C, CHR 0x0D,
                           CHR 0x1C, CHR 0x1D, CHR 0x1E, CHR 0x1F, CHR 0x20,
                           CHR 0x85, CHR 0xA0])"

text \<open>\<open>s.strip()\<close>: whitespace removed at both ends.\<close>

definition strip :: "string \<Rightarrow> string" where
  "strip s = rev (dropWhile is_space (rev (dropWhile is_space s)))"

text \<open>\<open>s.upper()\<close> and \<open>s.lower()\<close> on ASCII letters; other characters are kept.\<close>

definition upper_char :: "char \<Rightarrow> char" where
  "upper_char c =
     (case map_of (zip ''abcdefghijklmnopqrstuvwxyz'' ''ABCDEFGHIJKLMNOPQRSTUVWXYZ'') c of
        None \<Rightarrow> c | Some u \<Rightarrow> u)"

definition lower_char :: "char \<Rightarrow> char" where
  "lower_char c =
     (case map_of (zip ''ABCDEFGHIJKLMNOPQRSTUVWXYZ'' ''abcdefghijklmnopqrstuvwxyz'') c of
        None \<Rightarrow> c | Some l \<Rightarrow> l)"

definition upper :: "string \<Rightarrow> string" where
  "upper s = map upper_char s"

definition lower :: "string \<Rightarrow> string" where
  "lower s = map lower_char s"

text \<open>\<open>s.startswith(p)\<close>, and \<open>sub in s\<close> (substring test).\<close>

fun starts_with :: "string \<Rightarrow> string \<Rightarrow> bool" where
  "starts_with [] s = True"
| "starts_with (p # ps) [] = False"
| "starts_with (p # ps) (c # cs) = (p = c \<and> starts_with ps cs)"

fun contains_str :: "string \<Rightarrow> string \<Rightarrow> bool" where
  "contains_str sub [] = (sub = [])"
| "contains_str sub (c # cs) = (starts_with sub (c # cs) \<or> contains_str sub cs)"

text \<open>\<open>xs.index(x)\<close>: the first position of \<open>x\<close>; Python raises ValueError when absent.\<close>

fun index_of :: "'a \<Rightarrow> 'a list \<Rightarrow> nat option" where
  "index_of x [] = None"
| "index_of x (y # ys) = (if x = y then Some 0 else map_option Suc (index_of x ys))"

section \<open>Constants of map.py\<close>

text \<open>\<open>COUNTRY_CODES\<close>: a dict literal, kept as an association list in insertion order.\<close>

definition COUNTRY_CODES :: "(string \<times> string) list" where
  "COUNTRY_CODES = [
    (''Australia'', ''NABIMFD.AUS.M''),
    (''Austria'', ''NABIMFD.AUT.M''),
    (''Belgium'', ''NABIMFD.BEL.M''),
    (''Brazil'', ''NABIMFD.BRA.M''),
    (''Canada'', ''NABIMFD.CAN.M''),
    (''Chile'', ''NABIMFD.CHL.M''),
    (''China'', ''NABIMFD.CHN.M''),
    (''Cyprus'', ''NABIMFD.CYP.M''),
    (''Denmark'', ''NABIMFD.DNK.M''),
    (''Finland'', ''NABIMFD.FIN.M''),
    (''France'', ''NABIMFD.FRA.M''),
    (''Germany'', ''NABIMFD.DEU.M''),
    (''Greece'', ''NABIMFD.GRC.M''),
    (''India'', ''NABIMFD.IND.M''),
    (''Ireland'', ''NABIMFD.IRL.M''),
    (''Israel'', ''NABIMFD.ISR.M''),
    (''Italy'', ''NABIMFD.ITA.M''),
    (''Japan'', ''NABIMFD.JPN.M''),
    (''Korea'', ''NABIMFD.KOR.M''),
    (''Kuwait'', ''NABIMFD.KWT.M''),
    (''Luxembourg'', ''NABIMFD.LUX.M''),
    (''Malaysia'', ''NABIMFD.MYS.M''),
    (''Mexico'', ''NABIMFD.MEX.M''),
    (''Netherlands'', ''NABIMFD.NLD.M''),
    (''New Zealand'', ''NABIMFD.NZL.M''),
    (''Norway'', ''NABIMFD.NOR.M''),
    (''Philippines'', ''NABIMFD.PHL.M''),
    (''Poland'', ''NABIMFD.POL.M''),
    (''Portugal'', ''NABIMFD.PRT.M''),
    (''Russian Federation'', ''NABIMFD.RUS.M''),
    (''Russia'', ''NABIMFD.RUS.M''),
    (''Saudi Arabia'', ''NABIMFD.SAU.M''),
    (''Singapore'', ''NABIMFD.SGP.M''),
    (''South Africa'', ''NABIMFD.ZAF.M''),
    (''Spain'', ''NABIMFD.ESP.M''),
    (''Sweden'', ''NABIMFD.SWE.M''),
    (''Switzerland'', ''NABIMFD.CHE.M''),
    (''Thailand'', ''NABIMFD.THA.M''),
    (''United Kingdom'', ''NABIMFD.GBR.M''),
    (''United States'', ''NABIMFD.USA.M''),
    (''Hong Kong'', ''NABIMFD.HKG.M'')]"

definition STANDARD_COLUMN_ORDER :: "string list" where
  "STANDARD_COLUMN_ORDER = [
    '''',
    ''NABIMFD.AUS.M'', ''NABIMFD.AUT.M'', ''NABIMFD.BEL.M'', ''NABIMFD.BRA.M'',
    ''NABIMFD.CAN.M'', ''NABIMFD.CHL.M'', ''NABIMFD.CHN.M'', ''NABIMFD.CYP.M'',
    ''NABIMFD.DNK.M'', ''NABIMFD.FIN.M'', ''NABIMFD.FRA.M'', ''NABIMFD.DEU.M'',
    ''NABIMFD.GRC.M'', ''NABIMFD.IND.M'', ''NABIMFD.IRL.M'', ''NABIMFD.ISR.M'',
    ''NABIMFD.ITA.M'', ''NABIMFD.JPN.M'', ''NABIMFD.KOR.M'', ''NABIMFD.KWT.M'',
    ''NABIMFD.LUX.M'', ''NABIMFD.MYS.M'', ''NABIMFD.MEX.M'', ''NABIMFD.NLD.M'',
    ''NABIMFD.NZL.M'', ''NABIMFD.NOR.M'', ''NABIMFD.PHL.M'', ''NABIMFD.POL.M'',
    ''NABIMFD.PRT.M'', ''NABIMFD.RUS.M'', ''NABIMFD.SAU.M'', ''NABIMFD.SGP.M'',
    ''NABIMFD.ZAF.M'', ''NABIMFD.ESP.M'', ''NABIMFD.SWE.M'', ''NABIMFD.CHE.M'',
    ''NABIMFD.THA.M'', ''NABIMFD.GBR.M'', ''NABIMFD.USA.M'', ''NABIMFD.HKG.M'']"

section \<open>The parsed table and the record filter\<close>

text \<open>
  One row of the DataFrame that \<open>pd.read_csv\<close> returns, with the eleven columns named in
  \<open>main\<close>. A cell is its text; \<open>None\<close> is a missing value (NaN).
\<close>

record raw_record =
  Member_Lender :: "string option"
  Member_Code :: "string option"
  Type_col :: "string option"
  Facility :: "string option"
  Start_Date :: "string option"
  Expiration_of_Term :: "string option"
  Revolving :: "string option"
  Amount :: "string option"
  Currency :: "string option"
  Amount_Outstanding_SDR :: "string option"
  Status :: "string option"

text \<open>
  The cleaning step: \<open>df.dropna(subset=['Member (Lender)', 'Facility', 'Amount'])\<close>, then
  the rows whose member text contains \<open>Member\<close> are removed.
\<close>

definition dropna_subset :: "raw_record list \<Rightarrow> raw_record list" where
  "dropna_subset df =
     filter (\<lambda>r. Member_Lender r \<noteq> None \<and> Facility r \<noteq> None \<and> Amount r \<noteq> None) df"

definition remove_header_rows :: "raw_record list \<Rightarrow> raw_record list" where
  "remove_header_rows df =
     filter (\<lambda>r. (case Member_Lender r of None \<Rightarrow> False
                                          | Some m \<Rightarrow> contains_str ''Member'' m) = False) df"

definition clean_df :: "raw_record list \<Rightarrow> raw_record list" where
  "clean_df df = remove_header_rows (dropna_subset df)"

text \<open>The filter: \<open>df[df['Facility'].str.strip() == facility_filter]\<close>.\<close>

definition facility_filter :: string where
  "facility_filter = ''New Arrangement to Borrow''"

definition facility_matches :: "raw_record \<Rightarrow> bool" where
  "facility_matches r =
     (case Facility r of None \<Rightarrow> False | Some f \<Rightarrow> strip f = facility_filter)"

definition filtered_df :: "raw_record list \<Rightarrow> raw_record list" where
  "filtered_df df = filter facility_matches df"

section \<open>The amount parser\<close>

text \<open>
  Python's \<open>float(s)\<close> on a string. The grammar is the one of the language reference:
  optional sign, then \<open>nan\<close>, \<open>inf\<close> or \<open>infinity\<close> in any letter case, or a decimal
  number with an optional exponent, where single underscores may separate digits;
  anything else raises ValueError. The result is a double: \<open>Finite\<close> carries its exact
  value (\<open>Finite 0\<close> is \<open>0.0\<close>), \<open>NegZero\<close> is \<open>-0.0\<close>.
\<close>

datatype py_error = ValueError | KeyError | OSError

datatype pyfloat = Finite rat | NegZero | PosInf | NegInf | NaN

text \<open>
  The whitespace that \<open>float\<close> ignores at both ends: the ASCII whitespace of the C
  function, and the two other whitespace characters below 256, which are turned into
  blanks first. The separators \<open>0x1C\<close> to \<open>0x1F\<close>, which \<open>str.strip\<close> removes, are not
  among them.
\<close>

definition is_float_space :: "char \<Rightarrow> bool" where
  "is_float_space c = (c \<in> set [CHR 0x09, CHR 0x0A, CHR 0x0B, CHR 0x0C, CHR 0x0D, CHR 0x20,
                                 CHR 0x85, CHR 0xA0])"

definition float_strip :: "string \<Rightarrow> string" where
  "float_strip s = rev (dropWhile is_float_space (rev (dropWhile is_float_space s)))"

definition is_digit :: "char \<Rightarrow> bool" where
  "is_digit c = (c \<in> set ''0123456789'')"

definition digit_val :: "char \<Rightarrow> nat" where
  "digit_val c = of_char c - 48"

definition digits_val :: "string \<Rightarrow> nat" where
  "digits_val ds = foldl (\<lambda>a c. 10 * a + digit_val c) 0 ds"

text \<open>\<open>digit (["_"] digit)*\<close>: the digits read (underscores dropped) and the rest.\<close>

fun digitpart_rest :: "string \<Rightarrow> string \<times> string" where
  "digitpart_rest [] = ([], [])"
| "digitpart_rest [c] = (if is_digit c then ([c], []) else ([], [c]))"
| "digitpart_rest (c # d # cs) =
     (if is_digit c then (case digitpart_rest (d # cs) of (ds, r) \<Rightarrow> (c # ds, r))
      else if c = CHR ''_'' \<and> is_digit d then
        (case digitpart_rest cs of (ds, r) \<Rightarrow> (d # ds, r))
      else ([], c # d # cs))"

definition digitpart :: "string \<Rightarrow> (string \<times> string) option" where
  "digitpart s = (case s of [] \<Rightarrow> None
                  | c # cs \<Rightarrow> if is_digit c then Some (digitpart_rest s) else None)"

text \<open>\<open>[digitpart] "." digitpart | digitpart ["."]\<close>: integer digits, fraction digits, rest.\<close>

definition float_number :: "string \<Rightarrow> (string \<times> string \<times> string) option" where
  "float_number s =
     (case digitpart s of
        Some (ip, r) \<Rightarrow>
          (case r of
             [] \<Rightarrow> Some (ip, [], r)
           | c # r1 \<Rightarrow>
               if c = CHR ''.'' then
                 (case digitpart r1 of Some (fp, r2) \<Rightarrow> Some (ip, fp, r2)
                                    | None \<Rightarrow> Some (ip, [], r1))
               else Some (ip, [], r))
      | None \<Rightarrow>
          (case s of
             [] \<Rightarrow> None
           | c # r1 \<Rightarrow>
               if c = CHR ''.'' then
                 (case digitpart r1 of Some (fp, r2) \<Rightarrow> Some ([], fp, r2) | None \<Rightarrow> None)
               else None))"

text \<open>What follows the number: nothing, or \<open>("e" | "E") ["+" | "-"] digitpart\<close> to the end.\<close>

definition split_sign :: "string \<Rightarrow> bool \<times> string" where
  "split_sign s = (case s of [] \<Rightarrow> (False, s)
                   | c # cs \<Rightarrow> if c = CHR ''-'' then (True, cs)
                              else if c = CHR ''+'' then (False, cs) else (False, s))"

definition float_exponent :: "string \<Rightarrow> int option" where
  "float_exponent r =
     (case r of
        [] \<Rightarrow> Some 0
      | e # r1 \<Rightarrow>
          if e = CHR ''e'' \<or> e = CHR ''E'' then
            (case split_sign r1 of (neg, r2) \<Rightarrow>
               (case digitpart r2 of
                  Some (ds, r3) \<Rightarrow>
                    if r3 = [] then Some (if neg then - int (digits_val ds) else int (digits_val ds))
                    else None
                | None \<Rightarrow> None))
          else None)"

text \<open>
  The decimal \<open>m\<close> times ten to the \<open>e\<close> as a fraction of two natural numbers, and the
  double nearest to a fraction \<open>num / den\<close>, ties to the even significand, as the
  conversion of CPython rounds: \<open>e2\<close> is the binary exponent of the fraction
  (\<open>2 ^ e2 \<le> num / den < 2 ^ (e2 + 1)\<close>), \<open>q\<close> the exponent of the last place of a double
  of that size (53 significant bits, subnormal below \<open>2 ^ -1022\<close>), and the result is
  \<open>None\<close> when the rounded value is \<open>2 ^ 1024\<close> or more, which \<open>float\<close> returns as an infinity.
\<close>

definition decimal_fraction :: "nat \<Rightarrow> int \<Rightarrow> nat \<times> nat" where
  "decimal_fraction m e = (if 0 \<le> e then (m * 10 ^ nat e, 1) else (m, 10 ^ nat (- e)))"

fun bit_length :: "nat \<Rightarrow> nat" where
  "bit_length n = (if n = 0 then 0 else Suc (bit_length (n div 2)))"

declare bit_length.simps [simp del]

definition pow2 :: "int \<Rightarrow> rat" where
  "pow2 k = (if 0 \<le> k then 2 ^ nat k else 1 / 2 ^ nat (- k))"

definition binary_exponent :: "nat \<Rightarrow> nat \<Rightarrow> int" where
  "binary_exponent num den =
     (let k = int (bit_length num) - int (bit_length den)
      in if pow2 k \<le> of_nat num / of_nat den then k else k - 1)"

definition round_half_even :: "nat \<Rightarrow> nat \<Rightarrow> nat" where
  "round_half_even n d =
     (if 2 * (n mod d) < d then n div d
      else if d < 2 * (n mod d) then n div d + 1
      else if even (n div d) then n div d else n div d + 1)"

definition nearest_double :: "nat \<Rightarrow> nat \<Rightarrow> rat option" where
  "nearest_double num den =
     (if num = 0 then Some 0
      else
        (let q = max (binary_exponent num den) (- 1022) - 52;
             m = (if q < 0 then round_half_even (num * 2 ^ nat (- q)) den
                  else round_half_even num (den * 2 ^ nat q))
         in if 2 ^ 1024 \<le> of_nat m * pow2 q then None else Some (of_nat m * pow2 q)))"

text \<open>The double for a sign and a fraction: overflow gives an infinity, zero keeps the sign.\<close>

definition double_of :: "bool \<Rightarrow> nat \<Rightarrow> nat \<Rightarrow> pyfloat" where
  "double_of neg num den =
     (case nearest_double num den of
        None \<Rightarrow> if neg then NegInf else PosInf
      | Some v \<Rightarrow> if neg then (if v = 0 then NegZero else Finite (- v)) else Finite v)"

definition py_float :: "string \<Rightarrow> py_error + pyfloat" where
  "py_float s =
     (case split_sign (float_strip s) of (neg, u) \<Rightarrow>
        if lower u = ''nan'' then Inr NaN
        else if lower u = ''inf'' \<or> lower u = ''infinity'' then
          Inr (if neg then NegInf else PosInf)
        else
          (case float_number u of
             None \<Rightarrow> Inl ValueError
           | Some (ip, fp, r) \<Rightarrow>
               (case float_exponent r of
                  None \<Rightarrow> Inl ValueError
                | Some e \<Rightarrow>
                    (case decimal_fraction (digits_val (ip @ fp)) (e - int (length fp)) of
                       (num, den) \<Rightarrow> Inr (double_of neg num den)))))"

text \<open>\<open>str(x)\<close> of a cell: a missing value prints as \<open>nan\<close>.\<close>

definition str_cell :: "string option \<Rightarrow> string" where
  "str_cell c = (case c of None \<Rightarrow> ''nan'' | Some s \<Rightarrow> s)"

text \<open>
  Lines 229 to 237 of map.py: the body of the \<open>try\<close> (which can raise), and the whole
  statement with its bare \<open>except\<close>. The result \<open>None\<close> is Python's \<open>None\<close>.
\<close>

definition clean_amount :: "string \<Rightarrow> string" where
  "clean_amount amount_str =
     filter (\<lambda>c. c \<noteq> CHR '' '') (filter (\<lambda>c. c \<noteq> CHR '','') amount_str)"

definition parse_amount_body :: "string \<Rightarrow> py_error + pyfloat option" where
  "parse_amount_body amount_str =
     (if clean_amount amount_str \<noteq> [] \<and> clean_amount amount_str \<noteq> ''nan'' then
        (case py_float (clean_amount amount_str) of Inl e \<Rightarrow> Inl e | Inr v \<Rightarrow> Inr (Some v))
      else Inr None)"

definition parse_amount_stmt :: "string \<Rightarrow> py_error + pyfloat option" where
  "parse_amount_stmt amount_str =
     (case parse_amount_body amount_str of Inl e \<Rightarrow> Inr None | Inr a \<Rightarrow> Inr a)"

definition parse_amount :: "string option \<Rightarrow> pyfloat option" where
  "parse_amount cell =
     (case parse_amount_stmt (strip (str_cell cell)) of Inl e \<Rightarrow> None | Inr a \<Rightarrow> a)"

section \<open>The country resolver\<close>

definition code_whitelist :: "string list" where
  "code_whitelist = [''AUS'', ''AUT'', ''BEL'', ''BRA'', ''CAN'', ''CHL'', ''CHN'', ''CYP'',
     ''DNK'', ''FIN'', ''FRA'', ''DEU'', ''GRC'', ''IND'', ''IRL'', ''ISR'', ''ITA'', ''JPN'',
     ''KOR'', ''KWT'', ''LUX'', ''MYS'', ''MEX'', ''NLD'', ''NZL'', ''NOR'', ''PHL'', ''POL'',
     ''PRT'', ''RUS'', ''SAU'', ''SGP'', ''ZAF'', ''ESP'', ''SWE'', ''CHE'', ''THA'', ''GBR'',
     ''USA'']"

definition code_to_country_map :: "(string \<times> string) list" where
  "code_to_country_map = [
    (''AUS'', ''Australia''), (''AUT'', ''Austria''), (''BEL'', ''Belgium''),
    (''BRA'', ''Brazil''), (''CAN'', ''Canada''), (''CHL'', ''Chile''), (''CHN'', ''China''),
    (''CYP'', ''Cyprus''), (''DNK'', ''Denmark''), (''FIN'', ''Finland''),
    (''FRA'', ''France''), (''DEU'', ''Germany''), (''GRC'', ''Greece''), (''IND'', ''India''),
    (''IRL'', ''Ireland''), (''ISR'', ''Israel''), (''ITA'', ''Italy''), (''JPN'', ''Japan''),
    (''KOR'', ''Korea''), (''KWT'', ''Kuwait''), (''LUX'', ''Luxembourg''),
    (''MYS'', ''Malaysia''), (''MEX'', ''Mexico''), (''NLD'', ''Netherlands''),
    (''NZL'', ''New Zealand''), (''NOR'', ''Norway''), (''PHL'', ''Philippines''),
    (''POL'', ''Poland''), (''PRT'', ''Portugal''), (''RUS'', ''Russian Federation''),
    (''SAU'', ''Saudi Arabia''), (''SGP'', ''Singapore''), (''ZAF'', ''South Africa''),
    (''ESP'', ''Spain''), (''SWE'', ''Sweden''), (''CHE'', ''Switzerland''),
    (''THA'', ''Thailand''), (''GBR'', ''United Kingdom''), (''USA'', ''United States'')]"

definition exact_matches :: "(string \<times> string list) list" where
  "exact_matches = [
    (''Australia'', [''Australia'']),
    (''Austria'', [''Austria'']),
    (''Belgium'', [''Belgium'']),
    (''Hong Kong'', [''Hong Kong Monetary Authority'', ''HKMA'']),
    (''Chile'', [''Chile (Banco Central de Chile)'']),
    (''Denmark'', [''Denmark (Danmarks Nationalbank)'']),
    (''Germany'', [''Germany (Deutsche Bundesbank)'']),
    (''Israel'', [''Israel (Bank of Israel)'']),
    (''Netherlands'', [''Netherlands, The'']),
    (''Philippines'', [''Philippines (Bangko Sentral ng Pilipinas)'']),
    (''Poland'', [''Poland, Republic of (National Bank of Poland)'']),
    (''Portugal'', [''Portugal (Banco de Portugal)'']),
    (''Sweden'', [''Sweden (Sveriges Riksbank)'']),
    (''Switzerland'', [''Switzerland (Swiss National Bank)''])]"

definition simple_country_names :: "string list" where
  "simple_country_names = [
    ''Brazil'', ''Canada'', ''China'', ''Cyprus'', ''Finland'', ''France'',
    ''Greece'', ''India'', ''Ireland'', ''Italy'', ''Japan'', ''Korea'',
    ''Kuwait'', ''Luxembourg'', ''Malaysia'', ''Mexico'', ''New Zealand'',
    ''Norway'', ''Russian Federation'', ''Saudi Arabia'', ''Singapore'',
    ''South Africa'', ''Spain'', ''Thailand'', ''United Kingdom'', ''United States'']"

text \<open>
  The first loop (lines 244 to 299), over \<open>COUNTRY_CODES.items()\<close>: the result is the
  \<open>country_code\<close> whose cell is written before the \<open>break\<close>, or \<open>None\<close> when the loop ends
  with \<open>matched\<close> still false. \<open>country_prefix\<close> is \<open>country.replace(' ', '').upper()[:3]\<close>,
  and \<open>code_tier_body\<close> is the block under the two \<open>if\<close>s (lines 249 to 299), which depends
  on the member code only.
\<close>

definition country_prefix :: "string \<Rightarrow> string" where
  "country_prefix country = take 3 (upper (filter (\<lambda>c. c \<noteq> CHR '' '') country))"

definition code_tier_body :: "string \<Rightarrow> string option" where
  "code_tier_body member_code =
     (case map_of code_to_country_map (upper member_code) of
        None \<Rightarrow> None
      | Some matched_country \<Rightarrow>
          if matched_country \<noteq> [] then
            (case map_of COUNTRY_CODES matched_country of
               None \<Rightarrow> None
             | Some country_code \<Rightarrow>
                 if country_code \<in> set STANDARD_COLUMN_ORDER then Some country_code else None)
          else None)"

fun code_tier_loop :: "(string \<times> string) list \<Rightarrow> string \<Rightarrow> string option" where
  "code_tier_loop [] member_code = None"
| "code_tier_loop ((country, code) # rest) member_code =
     (if code \<in> set STANDARD_COLUMN_ORDER \<and> upper member_code = country_prefix country
         \<and> upper member_code \<in> set code_whitelist
      then
        (case code_tier_body member_code of
           Some country_code \<Rightarrow> Some country_code
         | None \<Rightarrow> code_tier_loop rest member_code)
      else code_tier_loop rest member_code)"

text \<open>
  The second loop (lines 321 to 333): the inner loop over the variants of one country,
  and the outer loop over \<open>exact_matches.items()\<close>. \<open>COUNTRY_CODES[country]\<close> is only
  evaluated under \<open>country in COUNTRY_CODES\<close>, so its \<open>None\<close> branch is never taken.
\<close>

fun variants_loop :: "string list \<Rightarrow> string \<Rightarrow> string \<Rightarrow> string option" where
  "variants_loop [] country member_name = None"
| "variants_loop (variant # vs) country member_name =
     (if lower variant = lower member_name \<or> contains_str variant member_name then
        (case map_of COUNTRY_CODES country of
           None \<Rightarrow> None
         | Some code \<Rightarrow>
             if code \<in> set STANDARD_COLUMN_ORDER then Some code
             else variants_loop vs country member_name)
      else variants_loop vs country member_name)"

fun exact_tier_loop :: "(string \<times> string list) list \<Rightarrow> string \<Rightarrow> string option" where
  "exact_tier_loop [] member_name = None"
| "exact_tier_loop ((country, variants) # rest) member_name =
     (if map_of COUNTRY_CODES country \<noteq> None then
        (case variants_loop variants country member_name of
           Some code \<Rightarrow> Some code
         | None \<Rightarrow> exact_tier_loop rest member_name)
      else exact_tier_loop rest member_name)"

text \<open>The third loop (lines 345 to 353), over \<open>simple_country_names\<close>.\<close>

fun simple_tier_loop :: "string list \<Rightarrow> string \<Rightarrow> string option" where
  "simple_tier_loop [] member_name = None"
| "simple_tier_loop (country # rest) member_name =
     (if map_of COUNTRY_CODES country \<noteq> None \<and> lower country = lower member_name then
        (case map_of COUNTRY_CODES country of
           None \<Rightarrow> None
         | Some code \<Rightarrow>
             if code \<in> set STANDARD_COLUMN_ORDER then Some code
             else simple_tier_loop rest member_name)
      else simple_tier_loop rest member_name)"

text \<open>The three loops in order, each run only if \<open>matched\<close> is still false.\<close>

datatype tier = CodeTier | AliasTier | SimpleTier

definition resolve_country :: "string \<Rightarrow> string \<Rightarrow> (tier \<times> string) option" where
  "resolve_country member_name member_code =
     (case code_tier_loop COUNTRY_CODES member_code of
        Some c \<Rightarrow> Some (CodeTier, c)
      | None \<Rightarrow>
          (case exact_tier_loop exact_matches member_name of
             Some c \<Rightarrow> Some (AliasTier, c)
           | None \<Rightarrow>
               (case simple_tier_loop simple_country_names member_name of
                  Some c \<Rightarrow> Some (SimpleTier, c)
                | None \<Rightarrow> None)))"

section \<open>The table builder\<close>

text \<open>A cell of the output table: text, a number, or Python's \<open>None\<close> (an empty cell).\<close>

datatype cell = Text string | Number pyfloat | Empty

text \<open>
  One iteration of the loop over \<open>filtered_df.iterrows()\<close> (lines 226 to 356): the data
  row after the iteration. Every matching branch does \<open>data_row[idx] = amount\<close> with
  \<open>idx = STANDARD_COLUMN_ORDER.index(code)\<close>, under \<open>code in STANDARD_COLUMN_ORDER\<close>.
\<close>

definition member_name_of :: "raw_record \<Rightarrow> string" where
  "member_name_of row = strip (str_cell (Member_Lender row))"

definition member_code_of :: "raw_record \<Rightarrow> string" where
  "member_code_of row = (case Member_Code row of None \<Rightarrow> [] | Some c \<Rightarrow> strip c)"

definition process_row :: "raw_record \<Rightarrow> cell list \<Rightarrow> cell list" where
  "process_row row data_row =
     (case parse_amount (Amount row) of
        None \<Rightarrow> data_row
      | Some amount \<Rightarrow>
          (case resolve_country (member_name_of row) (member_code_of row) of
             None \<Rightarrow> data_row
           | Some (t, code) \<Rightarrow>
               (case index_of code STANDARD_COLUMN_ORDER of
                  None \<Rightarrow> data_row
                | Some idx \<Rightarrow> data_row[idx := Number amount])))"

text \<open>
  The pair that one iteration contributes: the output code the record resolves to and its
  parsed amount; \<open>None\<close> when the amount does not parse or no tier matches.
\<close>

definition resolved_pair :: "raw_record \<Rightarrow> (string \<times> pyfloat) option" where
  "resolved_pair row =
     (case parse_amount (Amount row) of
        None \<Rightarrow> None
      | Some amount \<Rightarrow>
          (case resolve_country (member_name_of row) (member_code_of row) of
             None \<Rightarrow> None
           | Some (t, code) \<Rightarrow> Some (code, amount)))"

definition fill_data_row :: "raw_record list \<Rightarrow> cell list \<Rightarrow> cell list" where
  "fill_data_row rows data_row = fold process_row rows data_row"

text \<open>
  \<open>get_country_name_from_code\<close>: the registry inverted by a dict comprehension, where a
  later entry replaces an earlier one with the same code; the default removes the prefix
  and the suffix from the code (\<open>str.replace\<close> with a non-empty pattern).
\<close>

function replace_str :: "string \<Rightarrow> string \<Rightarrow> string \<Rightarrow> string" where
  "replace_str old new s =
     (if old = [] \<or> s = [] then s
      else if starts_with old s then new @ replace_str old new (drop (length old) s)
      else hd s # replace_str old new (tl s))"
  by pat_completeness auto
termination
  by (relation "measure (\<lambda>(old, new, s). length s)") auto

definition get_country_name_from_code :: "string \<Rightarrow> string" where
  "get_country_name_from_code country_code =
     (case map_of (rev (map (\<lambda>(k, v). (v, k)) COUNTRY_CODES)) country_code of
        Some name \<Rightarrow> name
      | None \<Rightarrow> replace_str ''.M'' [] (replace_str ''NABIMFD.'' [] country_code))"

definition header_row_1 :: "cell list" where
  "header_row_1 = map Text STANDARD_COLUMN_ORDER"

definition header_row_2 :: "cell list" where
  "header_row_2 =
     Text [] # map (\<lambda>col. Text (''New Arrangement to Borrow IMF Data: ''
                                  @ get_country_name_from_code col))
                   (tl STANDARD_COLUMN_ORDER)"

definition initial_data_row :: "string \<Rightarrow> cell list" where
  "initial_data_row report_date =
     Text report_date # replicate (length STANDARD_COLUMN_ORDER - 1) Empty"

text \<open>Steps 2 to 5 of \<open>main\<close>, from the table read and the report date: \<open>final_data\<close>.\<close>

definition build_table :: "string \<Rightarrow> raw_record list \<Rightarrow> cell list list" where
  "build_table report_date df =
     [header_row_1, header_row_2,
      fill_data_row (filtered_df (clean_df df)) (initial_data_row report_date)]"

section \<open>The date extractor\<close>

text \<open>
  The regular expressions of \<open>extract_date_from_tsv_file\<close>, each as a matcher at one
  position; \<open>re_search\<close> tries the positions from the left, as \<open>re.search\<close> does. All
  matching ignores letter case (\<open>re.IGNORECASE\<close>).
\<close>

definition not_line_break :: "char \<Rightarrow> bool" where
  "not_line_break c = (c \<notin> set [CHR 0x0D, CHR 0x0A, CHR 0x09])"

text \<open>A literal matched without regard to case: the text after it.\<close>

fun match_ci :: "string \<Rightarrow> string \<Rightarrow> string option" where
  "match_ci [] s = Some s"
| "match_ci (p # ps) [] = None"
| "match_ci (p # ps) (c # cs) =
     (if lower_char p = lower_char c then match_ci ps cs else None)"

text \<open>
  \<open>\s*([^\r\n\t]+)\<close>: the greedy whitespace run is followed by a character that is not
  whitespace, where the group starts; when the run reaches the end of the text the matcher
  backtracks to the last character of the run that the group accepts.
\<close>

definition capture_group :: "string \<Rightarrow> string option" where
  "capture_group r =
     (case dropWhile is_space r of
        c # cs \<Rightarrow> Some (takeWhile not_line_break (c # cs))
      | [] \<Rightarrow> (case filter not_line_break r of [] \<Rightarrow> None | c # cs \<Rightarrow> Some [last (c # cs)]))"

text \<open>\<open>As of:\s*([^\r\n\t]+)\<close>\<close>

definition as_of_1_at :: "string \<Rightarrow> string option" where
  "as_of_1_at s = (case match_ci ''as of:'' s of None \<Rightarrow> None | Some r \<Rightarrow> capture_group r)"

text \<open>\<open>As of\s*:\s*([^\r\n\t]+)\<close>\<close>

definition as_of_2_at :: "string \<Rightarrow> string option" where
  "as_of_2_at s =
     (case match_ci ''as of'' s of
        None \<Rightarrow> None
      | Some r \<Rightarrow>
          (case dropWhile is_space r of
             [] \<Rightarrow> None
           | c # cs \<Rightarrow> if c = CHR '':'' then capture_group cs else None))"

text \<open>
  \<open>as of[:\s]+([^\r\n\t]+)\<close>: at least one colon or whitespace character, then the group;
  backtracking as in \<open>capture_group\<close>, but the first character of the run stays in the run.
\<close>

definition colon_or_space :: "char \<Rightarrow> bool" where
  "colon_or_space c = (c = CHR '':'' \<or> is_space c)"

definition as_of_3_at :: "string \<Rightarrow> string option" where
  "as_of_3_at s =
     (case match_ci ''as of'' s of
        None \<Rightarrow> None
      | Some r \<Rightarrow>
          (case takeWhile colon_or_space r of
             [] \<Rightarrow> None
           | x # run \<Rightarrow>
               (case dropWhile colon_or_space r of
                  c # cs \<Rightarrow> Some (takeWhile not_line_break (c # cs))
                | [] \<Rightarrow> (case filter not_line_break run of
                           [] \<Rightarrow> None
                         | c # cs \<Rightarrow> Some [last (c # cs)]))))"

fun re_search :: "(string \<Rightarrow> 'a option) \<Rightarrow> string \<Rightarrow> 'a option" where
  "re_search p [] = p []"
| "re_search p (c # cs) = (case p (c # cs) of Some r \<Rightarrow> Some r | None \<Rightarrow> re_search p cs)"

text \<open>
  The long-form date
  \<open>(January|...|December)\s+(\d{1,2}),?\s+(\d{4})\<close>: the month by its number, the day
  and the year as the digits matched. No month name is the beginning of another, so at most
  one alternative matches at a position. A third digit after the day, or a day followed by
  neither a comma nor whitespace, leaves no way to match.
\<close>

definition month_names :: "string list" where
  "month_names = [''January'', ''February'', ''March'', ''April'', ''May'', ''June'', ''July'',
     ''August'', ''September'', ''October'', ''November'', ''December'']"

fun match_month :: "string list \<Rightarrow> nat \<Rightarrow> string \<Rightarrow> (nat \<times> string) option" where
  "match_month [] k s = None"
| "match_month (m # ms) k s =
     (case match_ci m s of Some r \<Rightarrow> Some (k, r) | None \<Rightarrow> match_month ms (Suc k) s)"

definition date_at :: "string \<Rightarrow> (nat \<times> string \<times> string) option" where
  "date_at s =
     (case match_month month_names 1 s of
        None \<Rightarrow> None
      | Some (mo, r1) \<Rightarrow>
          if takeWhile is_space r1 = [] then None
          else
            (let r2 = dropWhile is_space r1;
                 day = takeWhile is_digit r2;
                 r3 = dropWhile is_digit r2;
                 r4 = (case r3 of [] \<Rightarrow> r3 | c # cs \<Rightarrow> if c = CHR '','' then cs else r3);
                 r5 = dropWhile is_space r4;
                 year = take 4 r5
             in if day = [] \<or> 2 < length day then None
                else if takeWhile is_space r4 = [] then None
                else if length year = 4 \<and> list_all is_digit year then Some (mo, day, year)
                else None))"

text \<open>
  \<open>datetime.strptime(f"{month_name} {day}, {year}", '%B %d, %Y')\<close> on such a match, in
  the C locale: it raises ValueError unless the day is between 1 and the length of the
  month and the year is at least 1. The result kept is the year and the month.
\<close>

definition is_leap :: "nat \<Rightarrow> bool" where
  "is_leap y = (if y mod 100 = 0 then y mod 400 = 0 else y mod 4 = 0)"

definition days_in_month :: "nat \<Rightarrow> nat \<Rightarrow> nat" where
  "days_in_month y mo =
     (if mo = 2 then (if is_leap y then 29 else 28)
      else if mo \<in> set [4, 6, 9, 11] then 30 else 31)"

definition strptime_ym :: "nat \<Rightarrow> string \<Rightarrow> string \<Rightarrow> py_error + nat \<times> nat" where
  "strptime_ym mo day year =
     (if 1 \<le> digits_val day \<and> digits_val day \<le> days_in_month (digits_val year) mo
         \<and> 1 \<le> digits_val year
      then Inr (digits_val year, mo) else Inl ValueError)"

text \<open>
  \<open>strftime('%Y-%m')\<close>: the year in four digits and the month in two, as the Python
  documentation gives it (the C library of some platforms does not pad years below 1000).
\<close>

definition digit_char :: "nat \<Rightarrow> char" where
  "digit_char d = ''0123456789'' ! (d mod 10)"

definition strftime_ym :: "nat \<times> nat \<Rightarrow> string" where
  "strftime_ym ym =
     (case ym of (y, mo) \<Rightarrow>
        [digit_char (y div 1000), digit_char (y div 100), digit_char (y div 10), digit_char y,
         CHR ''-'', digit_char (mo div 10), digit_char mo])"

definition format_match :: "nat \<times> string \<times> string \<Rightarrow> py_error + string" where
  "format_match m =
     (case m of (mo, day, year) \<Rightarrow>
        (case strptime_ym mo day year of Inl e \<Rightarrow> Inl e | Inr ym \<Rightarrow> Inr (strftime_ym ym)))"

text \<open>
  The loop over \<open>as_of_patterns\<close>: \<open>Some\<close> when the loop body returns or raises, \<open>None\<close>
  when the loop ends.
\<close>

definition as_of_patterns :: "(string \<Rightarrow> string option) list" where
  "as_of_patterns = [as_of_1_at, as_of_2_at, as_of_3_at]"

fun try_patterns :: "(string \<Rightarrow> string option) list \<Rightarrow> string \<Rightarrow> (py_error + string) option" where
  "try_patterns [] content = None"
| "try_patterns (p # ps) content =
     (case re_search p content of
        None \<Rightarrow> try_patterns ps content
      | Some date_str \<Rightarrow>
          (case re_search date_at (strip date_str) of
             None \<Rightarrow> try_patterns ps content
           | Some m \<Rightarrow> Some (format_match m)))"

text \<open>
  The body of the \<open>try\<close>, from the text read: after the loop, the first long-form date of
  the whole content (\<open>re.findall(...)[0]\<close>), else the current month. \<open>now\<close> is the year and
  month of \<open>datetime.now()\<close>.
\<close>

definition extract_body :: "nat \<times> nat \<Rightarrow> string \<Rightarrow> py_error + string" where
  "extract_body now content =
     (case try_patterns as_of_patterns content of
        Some r \<Rightarrow> r
      | None \<Rightarrow>
          (case re_search date_at content of
             Some m \<Rightarrow> format_match m
           | None \<Rightarrow> Inr (strftime_ym now)))"

text \<open>
  The function with its \<open>except Exception\<close>: an error while reading the file, or a
  ValueError of \<open>strptime\<close>, gives the current month. The file is the outcome of
  \<open>open(...).read()\<close>.
\<close>

definition extract_date_from_tsv_file :: "nat \<times> nat \<Rightarrow> py_error + string \<Rightarrow> string" where
  "extract_date_from_tsv_file now file =
     (case file of
        Inl e \<Rightarrow> strftime_ym now
      | Inr content \<Rightarrow>
          (case extract_body now content of Inl e \<Rightarrow> strftime_ym now | Inr d \<Rightarrow> d))"

section \<open>The Mapper process and the orchestrator\<close>

text \<open>
  What \<open>main\<close> of map.py meets outside itself: the files present (paths relative to the
  script directory, which is the working directory the orchestrator gives it), the outcome
  of reading the source as text and as a table, and the outcome of the block that creates
  the output directory and writes the workbook (\<open>Inl\<close>: it raised).
\<close>

record mapper_env =
  files :: "string set"
  source_text :: "py_error + string"
  source_table :: "py_error + raw_record list"
  write_result :: "py_error + unit"
  partial_output_left :: bool

definition source_file_path :: string where
  "source_file_path = ''downloads/BORROWINGS.xls''"

definition output_file_path :: string where
  "output_file_path = ''output/NABIMFD_OUTPUT.xlsx''"

datatype mapper_outcome =
    Source_Not_Found
  | Saved "cell list list"
  | Unexpected_Error py_error

text \<open>
  \<open>main\<close> followed by the end of the script: the outcome, the exit status of the process
  and the files afterwards. \<open>main\<close> returns after printing that the source is missing,
  falls off its end after a successful write, and its \<open>except Exception\<close> prints the error
  and the traceback and falls off the end too; the script calls \<open>main()\<close> and ends, so the
  exit status is 0 on each path.
\<close>

definition map_process :: "nat \<times> nat \<Rightarrow> mapper_env \<Rightarrow> mapper_outcome \<times> nat \<times> string set" where
  "map_process now env =
     (if source_file_path \<notin> files env then (Source_Not_Found, 0, files env)
      else
        (case source_table env of
           Inl e \<Rightarrow> (Unexpected_Error e, 0, files env)
         | Inr df \<Rightarrow>
             (case write_result env of
                Inl e \<Rightarrow>
                  (Unexpected_Error e, 0,
                   if partial_output_left env then insert output_file_path (files env)
                   else files env)
              | Inr u \<Rightarrow>
                  (Saved (build_table (extract_date_from_tsv_file now (source_text env)) df), 0,
                   insert output_file_path (files env)))))"

text \<open>
  The orchestrator after its extraction phase: \<open>run_data_processing\<close> runs map.py as a
  subprocess (which may time out), then looks for \<open>self.output_file\<close>, which is
  \<open>nabimfd_summary.xlsx\<close> in the script directory; \<open>generate_summary\<close> looks for the source
  and that file again; \<open>main\<close> returns 0 on success and 1 otherwise.
\<close>

record pipeline_env =
  requirements_ok :: bool
  extraction_ok :: bool
  mapper_timed_out :: bool
  mapper :: mapper_env

definition summary_file_path :: string where
  "summary_file_path = ''nabimfd_summary.xlsx''"

definition run_data_processing :: "nat \<times> nat \<Rightarrow> pipeline_env \<Rightarrow> bool" where
  "run_data_processing now env =
     (if mapper_timed_out env then False
      else
        (case map_process now (mapper env) of
           (outcome, returncode, files_after) \<Rightarrow>
             if returncode = 0 then summary_file_path \<in> files_after else False))"

definition generate_summary :: "nat \<times> nat \<Rightarrow> pipeline_env \<Rightarrow> bool" where
  "generate_summary now env =
     (case map_process now (mapper env) of
        (outcome, returncode, files_after) \<Rightarrow>
          source_file_path \<in> files_after \<and> summary_file_path \<in> files_after)"

definition run_pipeline :: "nat \<times> nat \<Rightarrow> pipeline_env \<Rightarrow> bool" where
  "run_pipeline now env =
     (if \<not> requirements_ok env then False
      else if \<not> extraction_ok env then False
      else if \<not> run_data_processing now env then False
      else generate_summary now env)"

definition orchestrator_exit_status :: "nat \<times> nat \<Rightarrow> pipeline_env \<Rightarrow> nat" where
  "orchestrator_exit_status now env = (if run_pipeline now env then 0 else 1)"

section \<open>Properties of the registry\<close>

lemma registry_keys_distinct: "distinct (map fst COUNTRY_CODES)"
  by (simp add: COUNTRY_CODES_def)

lemma registry_codes_distinct_without_Russia:
  "distinct (map snd (filter (\<lambda>p. fst p \<noteq> ''Russia'') COUNTRY_CODES))"
  by (simp add: COUNTRY_CODES_def)

lemma distinct_snd_same_key:
  assumes "distinct (map snd xs)" "(a, c) \<in> set xs" "(b, c) \<in> set xs"
  shows "a = b"
proof -
  from assms(1) have "inj_on snd (set xs)" by (simp add: distinct_map)
  from inj_onD [OF this _ assms(2) assms(3)] show ?thesis by simp
qed

lemma distinct_fst_same_value:
  assumes "distinct (map fst xs)" "(a, c) \<in> set xs" "(a, d) \<in> set xs"
  shows "c = d"
proof -
  from assms(1) have "inj_on fst (set xs)" by (simp add: distinct_map)
  from inj_onD [OF this _ assms(2) assms(3)] show ?thesis by simp
qed

lemma Russia_in_registry: "(''Russia'', ''NABIMFD.RUS.M'') \<in> set COUNTRY_CODES"
  by (simp add: COUNTRY_CODES_def)

lemma Russian_Federation_in_registry:
  "(''Russian Federation'', ''NABIMFD.RUS.M'') \<in> set COUNTRY_CODES"
  by (simp add: COUNTRY_CODES_def)

text \<open>
  C5 (as stated): no two distinct registry entries map to the same output code.
  The registry holds both \<open>Russian Federation\<close> and \<open>Russia\<close>, with the same code.
\<close>

theorem registry_codes_not_unique:
  "(''Russian Federation'', ''NABIMFD.RUS.M'') \<in> set COUNTRY_CODES
   \<and> (''Russia'', ''NABIMFD.RUS.M'') \<in> set COUNTRY_CODES
   \<and> ''Russian Federation'' \<noteq> ''Russia''
   \<and> \<not> distinct (map snd COUNTRY_CODES)"
  by (simp add: COUNTRY_CODES_def)

text \<open>
  C5 (amended): the names of the registry are pairwise distinct, and two distinct names
  share an output code only when they are \<open>Russia\<close> and \<open>Russian Federation\<close>, which share
  \<open>NABIMFD.RUS.M\<close>. The registry is a constant: no function of the model takes or returns
  it, as no statement of map.py assigns to it.
\<close>

theorem registry_codes_unique_up_to_Russia:
  assumes "(n1, c) \<in> set COUNTRY_CODES" and "(n2, c) \<in> set COUNTRY_CODES" and "n1 \<noteq> n2"
  shows "c = ''NABIMFD.RUS.M'' \<and> {n1, n2} = {''Russia'', ''Russian Federation''}
         \<and> distinct (map fst COUNTRY_CODES)"
proof -
  let ?R = "filter (\<lambda>p. fst p \<noteq> ''Russia'') COUNTRY_CODES"
  have rest: "a = b" if "(a, d) \<in> set ?R" "(b, d) \<in> set ?R" for a b d
    using distinct_snd_same_key [OF registry_codes_distinct_without_Russia that] .
  have rf: "(''Russian Federation'', ''NABIMFD.RUS.M'') \<in> set ?R"
    using Russian_Federation_in_registry by simp
  have russia: "d = ''NABIMFD.RUS.M''" if "(''Russia'', d) \<in> set COUNTRY_CODES" for d
    using distinct_fst_same_value [OF registry_keys_distinct that Russia_in_registry] .
  have other: "m = ''Russian Federation''"
    if "(m, ''NABIMFD.RUS.M'') \<in> set COUNTRY_CODES" "m \<noteq> ''Russia''" for m
  proof -
    from that have "(m, ''NABIMFD.RUS.M'') \<in> set ?R" by simp
    from rest [OF this rf] show ?thesis .
  qed
  show ?thesis
  proof (cases "n1 = ''Russia''")
    case True
    with assms russia have c: "c = ''NABIMFD.RUS.M''" by blast
    with assms True other have "n2 = ''Russian Federation''" by blast
    with True c registry_keys_distinct show ?thesis by auto
  next
    case n1: False
    show ?thesis
    proof (cases "n2 = ''Russia''")
      case True
      with assms russia have c: "c = ''NABIMFD.RUS.M''" by blast
      with assms n1 other have "n1 = ''Russian Federation''" by blast
      with True c registry_keys_distinct show ?thesis by auto
    next
      case False
      with n1 assms have "(n1, c) \<in> set ?R" "(n2, c) \<in> set ?R" by simp_all
      from rest [OF this] assms(3) show ?thesis by contradiction
    qed
  qed
qed

theorem registry_codes_unique_up_to_Russia_witness:
  "(''Russia'', ''NABIMFD.RUS.M'') \<in> set COUNTRY_CODES
   \<and> (''Russian Federation'', ''NABIMFD.RUS.M'') \<in> set COUNTRY_CODES
   \<and> ''Russia'' \<noteq> ''Russian Federation''
   \<and> {''Russia'', ''Russian Federation''} = {''Russia'', ''Russian Federation''}
   \<and> distinct (map fst COUNTRY_CODES)"
  using registry_codes_unique_up_to_Russia
          [of "''Russia''" "''NABIMFD.RUS.M''" "''Russian Federation''"]
  by (simp add: COUNTRY_CODES_def)

section \<open>Properties of the record filter\<close>

text \<open>
  C9: the record filter retains exactly the records whose facility, trimmed of surrounding
  whitespace, equals \<open>New Arrangement to Borrow\<close>, in their order; a row whose facility has
  trailing spaces is retained, and a \<open>Stand-By Arrangement\<close> row is excluded.
\<close>

theorem record_filter_exact:
  "filtered_df df =
     filter (\<lambda>r. \<exists>f. Facility r = Some f \<and> strip f = ''New Arrangement to Borrow'') df
   \<and> filtered_df [r\<lparr>Facility := Some ''New Arrangement to Borrow  ''\<rparr>]
       = [r\<lparr>Facility := Some ''New Arrangement to Borrow  ''\<rparr>]
   \<and> filtered_df [r\<lparr>Facility := Some ''Stand-By Arrangement''\<rparr>] = []"
proof -
  have pred: "facility_matches x
      = (\<exists>f. Facility x = Some f \<and> strip f = ''New Arrangement to Borrow'')" for x
    by (cases "Facility x") (simp_all add: facility_matches_def facility_filter_def)
  have a: "filtered_df df
      = filter (\<lambda>r. \<exists>f. Facility r = Some f \<and> strip f = ''New Arrangement to Borrow'') df"
    unfolding filtered_df_def by (rule filter_cong) (simp_all add: pred)
  have b: "strip ''New Arrangement to Borrow  '' = ''New Arrangement to Borrow''"
    by (simp add: strip_def is_space_def)
  have c: "strip ''Stand-By Arrangement'' \<noteq> ''New Arrangement to Borrow''"
    by (simp add: strip_def is_space_def)
  show ?thesis
    using a b c by (simp add: filtered_df_def facility_matches_def facility_filter_def)
qed

section \<open>Evaluation rules and loop summaries for the resolver\<close>

lemma starts_with_Cons_if:
  "starts_with (p # ps) (c # cs) = (if p = c then starts_with ps cs else False)"
  by simp

lemma contains_str_Cons_if:
  "contains_str sub (c # cs) = (if starts_with sub (c # cs) then True else contains_str sub cs)"
  by simp

lemma lower_eq_if:
  "(lower (x # xs) = lower (y # ys))
     = (if lower_char x = lower_char y then lower xs = lower ys else False)"
  "(lower [] = lower (y # ys)) = False"
  "(lower (x # xs) = lower []) = False"
  "(lower [] = lower []) = True"
  by (simp_all add: lower_def)

lemma registry_codes_in_order:
  "set (map snd COUNTRY_CODES) \<subseteq> set STANDARD_COLUMN_ORDER"
  by (simp add: COUNTRY_CODES_def STANDARD_COLUMN_ORDER_def)

lemma code_tier_loop_summary:
  "code_tier_loop cs mc =
     (if \<exists>p \<in> set cs. snd p \<in> set STANDARD_COLUMN_ORDER \<and> upper mc = country_prefix (fst p)
                        \<and> upper mc \<in> set code_whitelist
      then code_tier_body mc else None)"
proof (induction cs)
  case Nil
  show ?case by simp
next
  case (Cons p cs)
  obtain country code where p: "p = (country, code)" by (cases p)
  show ?case
  proof (cases "code_tier_body mc")
    case None
    show ?thesis unfolding p by (simp add: None Cons.IH)
  next
    case (Some cc)
    show ?thesis unfolding p by (auto simp add: Some Cons.IH)
  qed
qed

lemma registry_prefixes:
  "map (\<lambda>p. country_prefix (fst p)) COUNTRY_CODES =
     [''AUS'', ''AUS'', ''BEL'', ''BRA'', ''CAN'', ''CHI'', ''CHI'', ''CYP'', ''DEN'', ''FIN'',
      ''FRA'', ''GER'', ''GRE'', ''IND'', ''IRE'', ''ISR'', ''ITA'', ''JAP'', ''KOR'', ''KUW'',
      ''LUX'', ''MAL'', ''MEX'', ''NET'', ''NEW'', ''NOR'', ''PHI'', ''POL'', ''POR'', ''RUS'',
      ''RUS'', ''SAU'', ''SIN'', ''SOU'', ''SPA'', ''SWE'', ''SWI'', ''THA'', ''UNI'', ''UNI'',
      ''HON'']"
  by (simp add: COUNTRY_CODES_def country_prefix_def upper_def upper_char_def)

lemma code_tier_registry:
  "code_tier_loop COUNTRY_CODES mc =
     (if upper mc \<in> set (map (\<lambda>p. country_prefix (fst p)) COUNTRY_CODES)
         \<and> upper mc \<in> set code_whitelist
      then code_tier_body mc else None)"
proof -
  have "snd p \<in> set STANDARD_COLUMN_ORDER" if "p \<in> set COUNTRY_CODES" for p
    using that registry_codes_in_order by auto
  then have "(\<exists>p \<in> set COUNTRY_CODES. snd p \<in> set STANDARD_COLUMN_ORDER
                \<and> upper mc = country_prefix (fst p) \<and> upper mc \<in> set code_whitelist)
             = (upper mc \<in> set (map (\<lambda>p. country_prefix (fst p)) COUNTRY_CODES)
                \<and> upper mc \<in> set code_whitelist)"
    by auto
  then show ?thesis by (simp only: code_tier_loop_summary)
qed

lemma variants_loop_None:
  "(\<forall>v \<in> set vs. \<not> (lower v = lower m \<or> contains_str v m)) \<Longrightarrow> variants_loop vs c m = None"
  by (induction vs) simp_all

lemma exact_tier_loop_None:
  "(\<forall>p \<in> set es. \<forall>v \<in> set (snd p). \<not> (lower v = lower m \<or> contains_str v m))
   \<Longrightarrow> exact_tier_loop es m = None"
proof (induction es)
  case Nil
  show ?case by simp
next
  case (Cons p es)
  obtain c vs where p: "p = (c, vs)" by (cases p)
  from Cons.prems p have "variants_loop vs c m = None"
    by (intro variants_loop_None) simp
  moreover from Cons have "exact_tier_loop es m = None" by simp
  ultimately show ?case by (simp add: p)
qed

lemma simple_tier_loop_None:
  "(\<forall>c \<in> set cs. lower c \<noteq> lower m) \<Longrightarrow> simple_tier_loop cs m = None"
  by (induction cs) simp_all

lemma code_tier_empty_code: "code_tier_loop COUNTRY_CODES [] = None"
  by (simp add: code_tier_registry registry_prefixes upper_def)

lemma code_tier_DEU: "code_tier_loop COUNTRY_CODES ''DEU'' = None"
  by (simp add: code_tier_registry registry_prefixes upper_def upper_char_def)

lemma code_tier_body_FRA: "code_tier_body ''FRA'' = Some ''NABIMFD.FRA.M''"
  by (simp add: code_tier_body_def upper_def upper_char_def code_to_country_map_def
        COUNTRY_CODES_def STANDARD_COLUMN_ORDER_def)

lemma code_tier_FRA: "code_tier_loop COUNTRY_CODES ''FRA'' = Some ''NABIMFD.FRA.M''"
  by (simp add: code_tier_registry registry_prefixes code_tier_body_FRA code_whitelist_def
        upper_def upper_char_def)

lemma exact_tier_Deutsche_Bundesbank:
  "exact_tier_loop exact_matches ''Deutsche Bundesbank'' = None"
  by (rule exact_tier_loop_None)
     (simp add: exact_matches_def lower_eq_if lower_char_def starts_with_Cons_if
                contains_str_Cons_if
           del: starts_with.simps(3) contains_str.simps(2))

lemma simple_tier_Deutsche_Bundesbank:
  "simple_tier_loop simple_country_names ''Deutsche Bundesbank'' = None"
  by (rule simple_tier_loop_None)
     (simp add: simple_country_names_def lower_eq_if lower_char_def)

section \<open>Properties of the country resolver\<close>

text \<open>
  C1: a member code of the fixed list resolves through the code tier whatever the member
  name is. The code reaches the lookup only when the upper-cased member code also equals
  the first three letters of a registry country name, so \<open>FRA\<close> (France) resolves with
  the name \<open>Banque de France\<close>, while \<open>DEU\<close> (Germany starts with \<open>GER\<close>) with the name
  \<open>Deutsche Bundesbank\<close> resolves in no tier although \<open>DEU\<close> is in the code's own list and
  lookup table.
\<close>

theorem code_tier_FRA_resolves_DEU_does_not:
  "resolve_country ''Banque de France'' ''FRA'' = Some (CodeTier, ''NABIMFD.FRA.M'')
   \<and> ''DEU'' \<in> set code_whitelist
   \<and> map_of code_to_country_map ''DEU'' = Some ''Germany''
   \<and> map_of COUNTRY_CODES ''Germany'' = Some ''NABIMFD.DEU.M''
   \<and> resolve_country ''Deutsche Bundesbank'' ''DEU'' = None"
proof -
  have a: "resolve_country ''Banque de France'' ''FRA'' = Some (CodeTier, ''NABIMFD.FRA.M'')"
    by (simp add: resolve_country_def code_tier_FRA)
  have b: "''DEU'' \<in> set code_whitelist"
    by (simp add: code_whitelist_def)
  have c: "map_of code_to_country_map ''DEU'' = Some ''Germany''"
    by (simp add: code_to_country_map_def)
  have d: "map_of COUNTRY_CODES ''Germany'' = Some ''NABIMFD.DEU.M''"
    by (simp add: COUNTRY_CODES_def)
  have e: "resolve_country ''Deutsche Bundesbank'' ''DEU'' = None"
    by (simp add: resolve_country_def code_tier_DEU exact_tier_Deutsche_Bundesbank
          simple_tier_Deutsche_Bundesbank)
  from a b c d e show ?thesis by blast
qed

lemma lower_char_table:
  "lower_char CHR ''A'' = CHR ''a''"
  "lower_char CHR ''B'' = CHR ''b''"
  "lower_char CHR ''C'' = CHR ''c''"
  "lower_char CHR ''D'' = CHR ''d''"
  "lower_char CHR ''E'' = CHR ''e''"
  "lower_char CHR ''F'' = CHR ''f''"
  "lower_char CHR ''G'' = CHR ''g''"
  "lower_char CHR ''H'' = CHR ''h''"
  "lower_char CHR ''I'' = CHR ''i''"
  "lower_char CHR ''J'' = CHR ''j''"
  "lower_char CHR ''K'' = CHR ''k''"
  "lower_char CHR ''L'' = CHR ''l''"
  "lower_char CHR ''M'' = CHR ''m''"
  "lower_char CHR ''N'' = CHR ''n''"
  "lower_char CHR ''O'' = CHR ''o''"
  "lower_char CHR ''P'' = CHR ''p''"
  "lower_char CHR ''Q'' = CHR ''q''"
  "lower_char CHR ''R'' = CHR ''r''"
  "lower_char CHR ''S'' = CHR ''s''"
  "lower_char CHR ''T'' = CHR ''t''"
  "lower_char CHR ''U'' = CHR ''u''"
  "lower_char CHR ''V'' = CHR ''v''"
  "lower_char CHR ''W'' = CHR ''w''"
  "lower_char CHR ''X'' = CHR ''x''"
  "lower_char CHR ''Y'' = CHR ''y''"
  "lower_char CHR ''Z'' = CHR ''z''"
  "lower_char CHR ''a'' = CHR ''a''"
  "lower_char CHR ''b'' = CHR ''b''"
  "lower_char CHR ''c'' = CHR ''c''"
  "lower_char CHR ''d'' = CHR ''d''"
  "lower_char CHR ''e'' = CHR ''e''"
  "lower_char CHR ''f'' = CHR ''f''"
  "lower_char CHR ''g'' = CHR ''g''"
  "lower_char CHR ''h'' = CHR ''h''"
  "lower_char CHR ''i'' = CHR ''i''"
  "lower_char CHR ''j'' = CHR ''j''"
  "lower_char CHR ''k'' = CHR ''k''"
  "lower_char CHR ''l'' = CHR ''l''"
  "lower_char CHR ''m'' = CHR ''m''"
  "lower_char CHR ''n'' = CHR ''n''"
  "lower_char CHR ''o'' = CHR ''o''"
  "lower_char CHR ''p'' = CHR ''p''"
  "lower_char CHR ''q'' = CHR ''q''"
  "lower_char CHR ''r'' = CHR ''r''"
  "lower_char CHR ''s'' = CHR ''s''"
  "lower_char CHR ''t'' = CHR ''t''"
  "lower_char CHR ''u'' = CHR ''u''"
  "lower_char CHR ''v'' = CHR ''v''"
  "lower_char CHR ''w'' = CHR ''w''"
  "lower_char CHR ''x'' = CHR ''x''"
  "lower_char CHR ''y'' = CHR ''y''"
  "lower_char CHR ''z'' = CHR ''z''"
  "lower_char CHR '' '' = CHR '' ''"
  "lower_char CHR '','' = CHR '',''"
  "lower_char CHR ''('' = CHR ''(''"
  "lower_char CHR '')'' = CHR '')''"
  "lower_char CHR ''.'' = CHR ''.''"
  "lower_char CHR ''-'' = CHR ''-''"
  by (simp_all add: lower_char_def)

lemma upper_char_table:
  "upper_char CHR ''A'' = CHR ''A''"
  "upper_char CHR ''B'' = CHR ''B''"
  "upper_char CHR ''C'' = CHR ''C''"
  "upper_char CHR ''D'' = CHR ''D''"
  "upper_char CHR ''E'' = CHR ''E''"
  "upper_char CHR ''F'' = CHR ''F''"
  "upper_char CHR ''G'' = CHR ''G''"
  "upper_char CHR ''H'' = CHR ''H''"
  "upper_char CHR ''I'' = CHR ''I''"
  "upper_char CHR ''J'' = CHR ''J''"
  "upper_char CHR ''K'' = CHR ''K''"
  "upper_char CHR ''L'' = CHR ''L''"
  "upper_char CHR ''M'' = CHR ''M''"
  "upper_char CHR ''N'' = CHR ''N''"
  "upper_char CHR ''O'' = CHR ''O''"
  "upper_char CHR ''P'' = CHR ''P''"
  "upper_char CHR ''Q'' = CHR ''Q''"
  "upper_char CHR ''R'' = CHR ''R''"
  "upper_char CHR ''S'' = CHR ''S''"
  "upper_char CHR ''T'' = CHR ''T''"
  "upper_char CHR ''U'' = CHR ''U''"
  "upper_char CHR ''V'' = CHR ''V''"
  "upper_char CHR ''W'' = CHR ''W''"
  "upper_char CHR ''X'' = CHR ''X''"
  "upper_char CHR ''Y'' = CHR ''Y''"
  "upper_char CHR ''Z'' = CHR ''Z''"
  "upper_char CHR ''a'' = CHR ''A''"
  "upper_char CHR ''b'' = CHR ''B''"
  "upper_char CHR ''c'' = CHR ''C''"
  "upper_char CHR ''d'' = CHR ''D''"
  "upper_char CHR ''e'' = CHR ''E''"
  "upper_char CHR ''f'' = CHR ''F''"
  "upper_char CHR ''g'' = CHR ''G''"
  "upper_char CHR ''h'' = CHR ''H''"
  "upper_char CHR ''i'' = CHR ''I''"
  "upper_char CHR ''j'' = CHR ''J''"
  "upper_char CHR ''k'' = CHR ''K''"
  "upper_char CHR ''l'' = CHR ''L''"
  "upper_char CHR ''m'' = CHR ''M''"
  "upper_char CHR ''n'' = CHR ''N''"
  "upper_char CHR ''o'' = CHR ''O''"
  "upper_char CHR ''p'' = CHR ''P''"
  "upper_char CHR ''q'' = CHR ''Q''"
  "upper_char CHR ''r'' = CHR ''R''"
  "upper_char CHR ''s'' = CHR ''S''"
  "upper_char CHR ''t'' = CHR ''T''"
  "upper_char CHR ''u'' = CHR ''U''"
  "upper_char CHR ''v'' = CHR ''V''"
  "upper_char CHR ''w'' = CHR ''W''"
  "upper_char CHR ''x'' = CHR ''X''"
  "upper_char CHR ''y'' = CHR ''Y''"
  "upper_char CHR ''z'' = CHR ''Z''"
  "upper_char CHR '' '' = CHR '' ''"
  "upper_char CHR '','' = CHR '',''"
  "upper_char CHR ''('' = CHR ''(''"
  "upper_char CHR '')'' = CHR '')''"
  "upper_char CHR ''.'' = CHR ''.''"
  "upper_char CHR ''-'' = CHR ''-''"
  by (simp_all add: upper_char_def)

lemma strip_bare_names:
  "\<forall>n \<in> set [''Hong Kong'', ''Chile'', ''Denmark'', ''Germany'', ''Israel'', ''Netherlands'',
                ''Philippines'', ''Poland'', ''Portugal'', ''Sweden'', ''Switzerland''].
     strip n = n"
  by (simp add: strip_def is_space_def)

lemma exact_tier_bare_names:
  "\<forall>n \<in> set [''Hong Kong'', ''Chile'', ''Denmark'', ''Germany'', ''Israel'', ''Netherlands'',
                ''Philippines'', ''Poland'', ''Portugal'', ''Sweden'', ''Switzerland''].
     \<forall>p \<in> set exact_matches. \<forall>v \<in> set (snd p). \<not> (lower v = lower n \<or> contains_str v n)"
  by (simp add: exact_matches_def lower_eq_if lower_char_table starts_with_Cons_if
                contains_str_Cons_if
           del: starts_with.simps(3) contains_str.simps(2))

lemma simple_tier_bare_names:
  "\<forall>n \<in> set [''Hong Kong'', ''Chile'', ''Denmark'', ''Germany'', ''Israel'', ''Netherlands'',
                ''Philippines'', ''Poland'', ''Portugal'', ''Sweden'', ''Switzerland''].
     \<forall>c \<in> set simple_country_names. lower c \<noteq> lower n"
  by (simp add: simple_country_names_def lower_eq_if lower_char_table)

text \<open>
  C10: a record with an empty member code whose member name is exactly \<open>Hong Kong\<close>,
  \<open>Chile\<close>, \<open>Denmark\<close>, \<open>Germany\<close>, \<open>Israel\<close>, \<open>Netherlands\<close>, \<open>Philippines\<close>, \<open>Poland\<close>,
  \<open>Portugal\<close>, \<open>Sweden\<close> or \<open>Switzerland\<close> resolves in no tier, and the loop iteration for
  it leaves the data row as it was.
\<close>

theorem bare_names_unresolved:
  assumes "Member_Lender r = Some n"
      and "n \<in> set [''Hong Kong'', ''Chile'', ''Denmark'', ''Germany'', ''Israel'',
                      ''Netherlands'', ''Philippines'', ''Poland'', ''Portugal'', ''Sweden'',
                      ''Switzerland'']"
      and "member_code_of r = []"
  shows "resolve_country (member_name_of r) (member_code_of r) = None
         \<and> process_row r data_row = data_row"
proof -
  from assms(2) strip_bare_names have "strip n = n"
    by blast
  with assms(1) have name: "member_name_of r = n"
    by (simp add: member_name_of_def str_cell_def)
  from assms(2) exact_tier_bare_names
  have "\<forall>p \<in> set exact_matches. \<forall>v \<in> set (snd p). \<not> (lower v = lower n \<or> contains_str v n)"
    by blast
  then have e: "exact_tier_loop exact_matches n = None"
    by (rule exact_tier_loop_None)
  from assms(2) simple_tier_bare_names
  have "\<forall>c \<in> set simple_country_names. lower c \<noteq> lower n"
    by blast
  then have s: "simple_tier_loop simple_country_names n = None"
    by (rule simple_tier_loop_None)
  have res: "resolve_country (member_name_of r) (member_code_of r) = None"
    by (simp add: resolve_country_def name assms(3) code_tier_empty_code e s)
  then have "process_row r data_row = data_row"
    by (simp add: process_row_def split: option.splits)
  with res show ?thesis by simp
qed

theorem bare_names_unresolved_witness:
  "resolve_country
     (member_name_of \<lparr>Member_Lender = Some ''Germany'', Member_Code = None, Type_col = None,
        Facility = Some ''New Arrangement to Borrow'', Start_Date = None,
        Expiration_of_Term = None, Revolving = None, Amount = Some ''100'', Currency = None,
        Amount_Outstanding_SDR = None, Status = None\<rparr>)
     (member_code_of \<lparr>Member_Lender = Some ''Germany'', Member_Code = None, Type_col = None,
        Facility = Some ''New Arrangement to Borrow'', Start_Date = None,
        Expiration_of_Term = None, Revolving = None, Amount = Some ''100'', Currency = None,
        Amount_Outstanding_SDR = None, Status = None\<rparr>) = None
   \<and> process_row \<lparr>Member_Lender = Some ''Germany'', Member_Code = None, Type_col = None,
        Facility = Some ''New Arrangement to Borrow'', Start_Date = None,
        Expiration_of_Term = None, Revolving = None, Amount = Some ''100'', Currency = None,
        Amount_Outstanding_SDR = None, Status = None\<rparr> [Text ''2025-06'', Empty]
      = [Text ''2025-06'', Empty]"
  by (rule bare_names_unresolved [where n = "''Germany''"])
     (simp_all add: member_code_of_def)

section \<open>Properties of the amount parser\<close>

lemma parse_amount_stmt_total: "\<exists>a. parse_amount_stmt s = Inr a"
  by (cases "parse_amount_body s") (simp_all add: parse_amount_stmt_def)

lemma bit_length_le: "n < 2 ^ k \<Longrightarrow> bit_length n \<le> k"
proof (induction k arbitrary: n)
  case 0
  then have "n = 0" by simp
  then show ?case by (simp add: bit_length.simps)
next
  case (Suc k)
  show ?case
  proof (cases "n = 0")
    case True
    then show ?thesis by (simp add: bit_length.simps)
  next
    case False
    from Suc.prems have "n div 2 < 2 ^ k" by simp
    then have "bit_length (n div 2) \<le> k" by (rule Suc.IH)
    moreover from False have "bit_length n = Suc (bit_length (n div 2))"
      by (subst bit_length.simps) simp
    ultimately show ?thesis by simp
  qed
qed

lemma bit_length_pos: "n \<noteq> 0 \<Longrightarrow> 0 < bit_length n"
  by (subst bit_length.simps) simp

lemma bit_length_1: "bit_length 1 = 1" "bit_length (Suc 0) = 1"
  by (simp_all add: bit_length.simps)

lemma round_half_even_1: "round_half_even n 1 = n" "round_half_even n (Suc 0) = n"
  by (simp_all add: round_half_even_def)

lemma pow2_cancel: "q < 0 \<Longrightarrow> of_nat (n * 2 ^ nat (- q)) * pow2 q = of_nat n"
  by (simp add: pow2_def)

text \<open>A natural number below \<open>2 ^ 53\<close> is a double: the conversion is exact.\<close>

lemma nearest_double_exact:
  assumes "n < 2 ^ 53"
  shows "nearest_double n 1 = Some (of_nat n)"
proof (cases "n = 0")
  case True
  then show ?thesis by (simp add: nearest_double_def)
next
  case False
  define e2 where "e2 = binary_exponent n 1"
  define q where "q = max e2 (- 1022) - 52"
  from assms have "bit_length n \<le> 53" by (rule bit_length_le)
  moreover from False have "0 < bit_length n" by (rule bit_length_pos)
  ultimately have "- 1 \<le> e2" "e2 \<le> 52"
    by (simp_all add: e2_def binary_exponent_def bit_length_1 Let_def)
  then have q: "q = e2 - 52" "q \<le> 0" by (simp_all add: q_def)
  have m: "(if q < 0 then round_half_even (n * 2 ^ nat (- q)) 1
            else round_half_even n (1 * 2 ^ nat q)) = (if q < 0 then n * 2 ^ nat (- q) else n)"
    using q(2) by (simp add: round_half_even_1)
  have v: "of_nat (if q < 0 then n * 2 ^ nat (- q) else n) * pow2 q = (of_nat n :: rat)"
  proof (cases "q < 0")
    case True
    then have "of_nat (n * 2 ^ nat (- q)) * pow2 q = (of_nat n :: rat)" by (rule pow2_cancel)
    with True show ?thesis by (simp only: if_True)
  next
    case False
    with q(2) have "q = 0" by simp
    then show ?thesis by (simp add: pow2_def)
  qed
  from assms have "(of_nat n :: rat) < of_nat (2 ^ 53)" by (simp only: of_nat_less_iff)
  then have "(of_nat n :: rat) < 2 ^ 53" by simp
  moreover have "(2 :: rat) ^ 53 \<le> 2 ^ 1024" by simp
  ultimately have small: "\<not> (2 :: rat) ^ 1024 \<le> of_nat n" by simp
  show ?thesis
    unfolding nearest_double_def Let_def e2_def [symmetric] q_def [symmetric] m v
    using False small by simp
qed

lemma digit_not_space: "is_digit c \<Longrightarrow> \<not> is_float_space c"
  by (auto simp: is_digit_def is_float_space_def)

lemma digit_lower: "is_digit c \<Longrightarrow> lower_char c = c"
proof -
  assume "is_digit c"
  then have "c \<in> set ''0123456789''" by (simp only: is_digit_def)
  moreover have "\<forall>y \<in> set ''0123456789''. lower_char y = y"
    by (simp add: lower_char_def)
  ultimately show ?thesis by blast
qed

lemma digit_not_sign: "is_digit c \<Longrightarrow> c \<noteq> CHR ''-'' \<and> c \<noteq> CHR ''+'' \<and> c \<noteq> CHR ''n''
    \<and> c \<noteq> CHR ''i'' \<and> c \<noteq> CHR ''.'' \<and> c \<noteq> CHR ''_''"
  by (auto simp: is_digit_def)

lemma float_strip_id:
  assumes "s \<noteq> []" and "\<not> is_float_space (hd s)" and "\<not> is_float_space (last s)"
  shows "float_strip s = s"
proof -
  from assms(1,2) have a: "dropWhile is_float_space s = s" by (cases s) simp_all
  from assms(1,3) have b: "dropWhile is_float_space (rev s) = rev s"
    by (cases "rev s") (simp_all add: last_rev [symmetric] hd_rev)
  show ?thesis by (simp add: float_strip_def a b)
qed

lemma digitpart_rest_digits:
  assumes "list_all is_digit ds"
      and "r = [] \<or> (\<not> is_digit (hd r) \<and> hd r \<noteq> CHR ''_'')"
  shows "digitpart_rest (ds @ r) = (ds, r)"
  using assms(1)
proof (induction ds)
  case Nil
  show ?case
  proof (cases r)
    case Nil
    then show ?thesis by simp
  next
    case (Cons c cs)
    with assms(2) have c: "\<not> is_digit c" "c \<noteq> CHR ''_''" by simp_all
    show ?thesis
    proof (cases cs)
      case Nil
      with Cons c show ?thesis by simp
    next
      case (Cons d ds')
      with \<open>r = c # cs\<close> c show ?thesis by simp
    qed
  qed
next
  case (Cons c ds)
  then have c: "is_digit c" and IH: "digitpart_rest (ds @ r) = (ds, r)" by simp_all
  show ?case
  proof (cases "ds @ r")
    case Nil
    with c show ?thesis by simp
  next
    case (Cons d cs)
    with IH have "digitpart_rest (d # cs) = (ds, r)" by simp
    with Cons c show ?thesis by simp
  qed
qed

lemma digitpart_digits:
  assumes "ds \<noteq> []" and "list_all is_digit ds"
      and "r = [] \<or> (\<not> is_digit (hd r) \<and> hd r \<noteq> CHR ''_'')"
  shows "digitpart (ds @ r) = Some (ds, r)"
proof -
  from assms(1) obtain c cs where ds: "ds = c # cs" by (cases ds) auto
  with assms(2) have "is_digit c" by simp
  with ds digitpart_rest_digits [OF assms(2,3)] show ?thesis
    by (simp add: digitpart_def)
qed

lemma digitpart_Nil: "digitpart [] = None"
  by (simp add: digitpart_def)

text \<open>What \<open>float\<close> does with a decimal numeral without sign and exponent.\<close>

lemma py_float_decimal:
  assumes "ip \<noteq> []" and "list_all is_digit ip" and "list_all is_digit fp"
      and "u = ip \<or> u = ip @ ''.'' @ fp"
      and "u = ip \<longrightarrow> fp = []"
  shows "py_float u = Inr (double_of False (digits_val (ip @ fp)) (10 ^ length fp))"
proof -
  from assms(1) obtain c cs where ip: "ip = c # cs" by (cases ip) auto
  with assms(2) have c: "is_digit c" by simp
  from assms(4) ip have hd: "u \<noteq> []" "hd u = c" by auto
  have last: "\<not> is_float_space (last u)"
  proof (cases "u = ip")
    case True
    with assms(1,2) have "is_digit (last u)" by (simp add: list_all_iff)
    then show ?thesis by (rule digit_not_space)
  next
    case False
    with assms(4) have u: "u = ip @ ''.'' @ fp" by simp
    show ?thesis
    proof (cases "fp = []")
      case True
      with u show ?thesis by (simp add: is_float_space_def)
    next
      case False
      with u assms(3) have "is_digit (last u)" by (simp add: list_all_iff)
      then show ?thesis by (rule digit_not_space)
    qed
  qed
  from hd c have strip: "float_strip u = u"
    by (intro float_strip_id last) (simp_all add: digit_not_space)
  from hd c have sign: "split_sign u = (False, u)"
    by (cases u) (auto simp: split_sign_def dest: digit_not_sign)
  from hd c have "hd (lower u) = c" by (cases u) (simp_all add: lower_def digit_lower)
  with c have word: "lower u \<noteq> ''nan''" "lower u \<noteq> ''inf''" "lower u \<noteq> ''infinity''"
    by (auto dest: digit_not_sign)
  have num: "float_number u = Some (ip, fp, [])"
  proof (cases "u = ip")
    case True
    with assms(5) have fp: "fp = []" by simp
    from digitpart_digits [OF assms(1,2), of "[]"] have "digitpart ip = Some (ip, [])" by simp
    with True fp show ?thesis by (simp add: float_number_def)
  next
    case False
    with assms(4) have u: "u = ip @ ''.'' @ fp" by simp
    have d: "digitpart (ip @ ''.'' @ fp) = Some (ip, ''.'' @ fp)"
      by (rule digitpart_digits [OF assms(1,2)]) (simp add: is_digit_def)
    show ?thesis
    proof (cases "fp = []")
      case True
      with u d show ?thesis by (simp add: float_number_def digitpart_Nil)
    next
      case False
      from digitpart_digits [OF False assms(3), of "[]"] have "digitpart fp = Some (fp, [])"
        by simp
      with u d show ?thesis by (simp add: float_number_def)
    qed
  qed
  have frac: "decimal_fraction (digits_val (ip @ fp)) (- int (length fp))
              = (digits_val (ip @ fp), 10 ^ length fp)"
    by (cases "fp = []") (simp_all add: decimal_fraction_def)
  show ?thesis
    using word by (simp add: py_float_def strip sign num float_exponent_def frac)
qed

lemma parse_amount_clean:
  assumes "clean_amount (strip s) = c" and "c \<noteq> []" and "c \<noteq> ''nan''"
  shows "parse_amount (Some s) = (case py_float c of Inl e \<Rightarrow> None | Inr v \<Rightarrow> Some v)"
  using assms
  by (simp add: parse_amount_def parse_amount_stmt_def parse_amount_body_def str_cell_def
        split: sum.splits)

lemma parse_amount_decimal:
  assumes "ip \<noteq> []" and "list_all is_digit ip" and "list_all is_digit fp"
      and "clean_amount (strip s) = ip \<or> clean_amount (strip s) = ip @ ''.'' @ fp"
      and "clean_amount (strip s) = ip \<longrightarrow> fp = []"
  shows "parse_amount (Some s) = Some (double_of False (digits_val (ip @ fp)) (10 ^ length fp))"
proof -
  from assms(1) obtain c cs where ip: "ip = c # cs" by (cases ip) auto
  with assms(2) have c: "is_digit c" by simp
  with ip assms(4) have ne: "clean_amount (strip s) \<noteq> []" "clean_amount (strip s) \<noteq> ''nan''"
    by (auto dest: digit_not_sign)
  show ?thesis
    by (simp add: parse_amount_clean [OF refl ne]
          py_float_decimal [OF assms(1,2,3) assms(4) assms(5)])
qed

lemma parse_amount_digits:
  assumes "ds \<noteq> []" and "list_all is_digit ds" and "clean_amount (strip s) = ds"
      and "digits_val ds < 2 ^ 53"
  shows "parse_amount (Some s) = Some (Finite (of_nat (digits_val ds)))"
proof -
  have "parse_amount (Some s) = Some (double_of False (digits_val (ds @ [])) (10 ^ length ([] :: string)))"
    by (rule parse_amount_decimal [OF assms(1,2)]) (simp_all add: assms(3))
  moreover have "nearest_double (digits_val ds) (Suc 0) = Some (of_nat (digits_val ds))"
    using nearest_double_exact [OF assms(4)] by simp
  ultimately show ?thesis
    by (simp add: double_of_def)
qed

text \<open>The characters of a text that \<open>float\<close> accepts.\<close>

lemma mem_dropWhile: "x \<in> set xs \<Longrightarrow> \<not> P x \<Longrightarrow> x \<in> set (dropWhile P xs)"
  by (induction xs) auto

lemma float_strip_mem:
  assumes "x \<in> set t" and "\<not> is_float_space x"
  shows "x \<in> set (float_strip t)"
proof -
  from assms have "x \<in> set (dropWhile is_float_space t)" by (rule mem_dropWhile)
  then have "x \<in> set (rev (dropWhile is_float_space t))" by simp
  then have "x \<in> set (dropWhile is_float_space (rev (dropWhile is_float_space t)))"
    using assms(2) by (rule mem_dropWhile)
  then show ?thesis by (simp add: float_strip_def)
qed

lemma split_sign_mem:
  "split_sign u = (neg, w) \<Longrightarrow> x \<in> set u \<Longrightarrow> x \<in> set w \<or> x = CHR ''-'' \<or> x = CHR ''+''"
  by (cases u) (auto simp: split_sign_def split: if_splits)

lemma lower_char_other: "x \<notin> set ''ABCDEFGHIJKLMNOPQRSTUVWXYZ'' \<Longrightarrow> lower_char x = x"
  by (simp add: lower_char_def)

lemma lower_char_word:
  assumes "lower_char x \<in> set ''infinityna''"
  shows "x \<in> set ''infatyINFATY''"
proof (cases "x \<in> set ''ABCDEFGHIJKLMNOPQRSTUVWXYZ''")
  case True
  have "\<forall>y \<in> set ''ABCDEFGHIJKLMNOPQRSTUVWXYZ''.
          lower_char y \<in> set ''infinityna'' \<longrightarrow> y \<in> set ''infatyINFATY''"
    by (simp add: lower_char_def)
  with True assms show ?thesis by blast
next
  case False
  then have "lower_char x = x" by (rule lower_char_other)
  with assms have "x \<in> set ''infinityna''" by simp
  then show ?thesis by auto
qed

lemma lower_word_mem:
  assumes "lower w = k" and "set k \<subseteq> set ''infinityna''" and "x \<in> set w"
  shows "x \<in> set ''infatyINFATY''"
proof -
  from assms(1,3) have "lower_char x \<in> set k" by (auto simp: lower_def)
  with assms(2) have "lower_char x \<in> set ''infinityna''" by blast
  then show ?thesis by (rule lower_char_word)
qed

lemma digitpart_rest_mem:
  "digitpart_rest s = (ds, r) \<Longrightarrow> x \<in> set s \<Longrightarrow> x \<in> set r \<or> is_digit x \<or> x = CHR ''_''"
proof (induction s arbitrary: ds r rule: digitpart_rest.induct)
  case 1
  then show ?case by simp
next
  case (2 c)
  then show ?case by (auto split: if_splits)
next
  case (3 c d cs)
  show ?case
  proof (cases "is_digit c")
    case True
    obtain ds' r' where p: "digitpart_rest (d # cs) = (ds', r')"
      by (cases "digitpart_rest (d # cs)")
    with True "3.prems"(1) have r: "r' = r" by simp
    show ?thesis
    proof (cases "x = c")
      case True
      with \<open>is_digit c\<close> show ?thesis by simp
    next
      case False
      with "3.prems"(2) have "x \<in> set (d # cs)" by simp
      with "3.IH"(1) [OF True p] r show ?thesis by simp
    qed
  next
    case False
    show ?thesis
    proof (cases "c = CHR ''_'' \<and> is_digit d")
      case True
      obtain ds' r' where p: "digitpart_rest cs = (ds', r')"
        by (cases "digitpart_rest cs")
      with True False "3.prems"(1) have r: "r' = r" by simp
      show ?thesis
      proof (cases "x = c \<or> x = d")
        case True
        with \<open>c = CHR ''_'' \<and> is_digit d\<close> show ?thesis by auto
      next
        case False
        with "3.prems"(2) have "x \<in> set cs" by simp
        with "3.IH"(2) [OF \<open>\<not> is_digit c\<close> True p] r show ?thesis by simp
      qed
    next
      case no: False
      with False "3.prems" show ?thesis by auto
    qed
  qed
qed

lemma digitpart_mem:
  "digitpart s = Some (ds, r) \<Longrightarrow> x \<in> set s \<Longrightarrow> x \<in> set r \<or> is_digit x \<or> x = CHR ''_''"
  by (cases s) (auto simp: digitpart_def split: if_splits dest: digitpart_rest_mem)

lemma float_number_mem:
  assumes "float_number w = Some (ip, fp, r)" and "x \<in> set w"
  shows "x \<in> set r \<or> is_digit x \<or> x = CHR ''_'' \<or> x = CHR ''.''"
proof (cases "digitpart w")
  case None
  with assms(1) obtain r1 where w: "w = CHR ''.'' # r1" and d: "digitpart r1 = Some (fp, r)"
    by (cases w) (auto simp: float_number_def split: if_splits option.splits)
  from w assms(2) have "x = CHR ''.'' \<or> x \<in> set r1" by auto
  with digitpart_mem [OF d] show ?thesis by blast
next
  case (Some p)
  obtain a r0 where p: "p = (a, r0)" by (cases p)
  from Some p assms(2) have x: "x \<in> set r0 \<or> is_digit x \<or> x = CHR ''_''"
    by (auto dest: digitpart_mem)
  show ?thesis
  proof (cases r0)
    case Nil
    with Some p assms(1) have "r = []" by (simp add: float_number_def)
    with x Nil show ?thesis by auto
  next
    case (Cons c r1)
    show ?thesis
    proof (cases "c = CHR ''.''")
      case False
      with Some p Cons assms(1) have "r = r0" by (simp add: float_number_def)
      with x show ?thesis by blast
    next
      case True
      show ?thesis
      proof (cases "digitpart r1")
        case None
        with Some p Cons True assms(1) have "r = r1" by (simp add: float_number_def)
        with x Cons True show ?thesis by auto
      next
        case s2: (Some p2)
        obtain b r2 where p2: "p2 = (b, r2)" by (cases p2)
        with Some p Cons True s2 assms(1) have "r = r2" by (simp add: float_number_def)
        with x Cons True digitpart_mem [of r1 b r2 x] s2 p2 show ?thesis by auto
      qed
    qed
  qed
qed

lemma float_exponent_mem:
  assumes "float_exponent r = Some e" and "x \<in> set r"
  shows "is_digit x \<or> x \<in> set ''_eE+-''"
proof (cases r)
  case Nil
  with assms(2) show ?thesis by simp
next
  case (Cons c r1)
  with assms(1) have c: "c = CHR ''e'' \<or> c = CHR ''E''"
    by (auto simp: float_exponent_def split: if_splits)
  obtain neg r2 where s: "split_sign r1 = (neg, r2)" by (cases "split_sign r1")
  with Cons c assms(1) obtain ds where d: "digitpart r2 = Some (ds, [])"
    by (auto simp: float_exponent_def split: if_splits option.splits)
  from Cons assms(2) have "x = c \<or> x \<in> set r1" by auto
  then show ?thesis
  proof
    assume "x = c"
    with c show ?thesis by auto
  next
    assume "x \<in> set r1"
    with split_sign_mem [OF s] have "x \<in> set r2 \<or> x = CHR ''-'' \<or> x = CHR ''+''" by blast
    with digitpart_mem [OF d] show ?thesis by auto
  qed
qed

lemma py_float_chars:
  assumes "py_float t = Inr v" and "x \<in> set t"
  shows "x \<in> set ''0123456789+-.eE_infatyINFATY'' \<or> is_float_space x"
proof (cases "is_float_space x")
  case True
  then show ?thesis by simp
next
  case False
  with assms(2) have x: "x \<in> set (float_strip t)" by (rule float_strip_mem)
  obtain neg u where s: "split_sign (float_strip t) = (neg, u)"
    by (cases "split_sign (float_strip t)")
  from split_sign_mem [OF s x] have xu: "x \<in> set u \<or> x = CHR ''-'' \<or> x = CHR ''+''" .
  have digits: "\<forall>y \<in> set ''0123456789''. y \<in> set ''0123456789+-.eE_infatyINFATY''"
    by simp
  have marks: "\<forall>y \<in> set ''_eE+-.''. y \<in> set ''0123456789+-.eE_infatyINFATY''"
    by simp
  have letters: "\<forall>y \<in> set ''infatyINFATY''. y \<in> set ''0123456789+-.eE_infatyINFATY''"
    by simp
  have sign: "CHR ''-'' \<in> set ''_eE+-.''" "CHR ''+'' \<in> set ''_eE+-.''"
    "CHR ''.'' \<in> set ''_eE+-.''" "CHR ''_'' \<in> set ''_eE+-.''"
    by simp_all
  have more: "\<forall>y \<in> set ''_eE+-''. y \<in> set ''_eE+-.''"
    by simp
  have dig: "y \<in> set ''0123456789''" if "is_digit y" for y
    using that by (simp only: is_digit_def)
  show ?thesis
  proof (cases "lower u = ''nan'' \<or> lower u = ''inf'' \<or> lower u = ''infinity''")
    case True
    then obtain k where k: "lower u = k" "set k \<subseteq> set ''infinityna''" by auto
    from xu show ?thesis
    proof
      assume "x \<in> set u"
      with k have "x \<in> set ''infatyINFATY''" by (rule lower_word_mem)
      with letters show ?thesis by blast
    next
      assume "x = CHR ''-'' \<or> x = CHR ''+''"
      with sign have "x \<in> set ''_eE+-.''" by blast
      with marks show ?thesis by blast
    qed
  next
    case no: False
    with assms(1) s obtain ip fp r e where n: "float_number u = Some (ip, fp, r)"
        and e: "float_exponent r = Some e"
      by (auto simp: py_float_def split: option.splits)
    from xu show ?thesis
    proof
      assume "x \<in> set u"
      with float_number_mem [OF n]
      have a: "x \<in> set r \<or> is_digit x \<or> x = CHR ''_'' \<or> x = CHR ''.''"
        by blast
      have b: "x \<in> set r \<longrightarrow> is_digit x \<or> x \<in> set ''_eE+-''"
        using float_exponent_mem [OF e] by blast
      from a b have "is_digit x \<or> x \<in> set ''_eE+-'' \<or> x = CHR ''_'' \<or> x = CHR ''.''"
        by blast
      with sign more have "is_digit x \<or> x \<in> set ''_eE+-.''" by blast
      with dig digits marks show ?thesis by blast
    next
      assume "x = CHR ''-'' \<or> x = CHR ''+''"
      with sign have "x \<in> set ''_eE+-.''" by blast
      with marks show ?thesis by blast
    qed
  qed
qed

lemma parse_amount_rejects:
  assumes "x \<in> set (clean_amount (strip s))"
      and "x \<notin> set ''0123456789+-.eE_infatyINFATY''" and "\<not> is_float_space x"
  shows "parse_amount (Some s) = None"
proof (cases "py_float (clean_amount (strip s))")
  case (Inl e)
  then show ?thesis
    by (simp add: parse_amount_def parse_amount_stmt_def parse_amount_body_def str_cell_def)
next
  case (Inr v)
  from py_float_chars [OF Inr assms(1)] assms(2,3) show ?thesis by blast
qed

text \<open>A natural number of \<open>2 ^ 1024\<close> or more is beyond the doubles: the result is an infinity.\<close>

lemma bit_length_gt: "2 ^ k \<le> n \<Longrightarrow> k < bit_length n"
proof (induction k arbitrary: n)
  case 0
  then have "n \<noteq> 0" by auto
  then show ?case by (rule bit_length_pos)
next
  case (Suc k)
  from Suc.prems have n: "n \<noteq> 0" by (cases "n = 0") simp_all
  from Suc.prems have "2 ^ k \<le> n div 2" by simp
  then have "k < bit_length (n div 2)" by (rule Suc.IH)
  moreover from n have "bit_length n = Suc (bit_length (n div 2))"
    by (subst bit_length.simps) simp
  ultimately show ?case by simp
qed

lemma bit_length_lower: "n \<noteq> 0 \<Longrightarrow> 2 ^ (bit_length n - 1) \<le> n"
proof (induction n rule: less_induct)
  case (less n)
  from less.prems have bl: "bit_length n = Suc (bit_length (n div 2))"
    by (subst bit_length.simps) simp
  show ?case
  proof (cases "n div 2 = 0")
    case True
    with less.prems have "n = 1" by (simp add: div_eq_0_iff)
    then show ?thesis by (simp add: bit_length_1)
  next
    case False
    from less.prems have "n div 2 < n" by simp
    from less.IH [OF this False] have ih: "2 ^ (bit_length (n div 2) - 1) \<le> n div 2" .
    from False have "0 < bit_length (n div 2)" by (rule bit_length_pos)
    then have "(2 :: nat) ^ bit_length (n div 2) = 2 * 2 ^ (bit_length (n div 2) - 1)"
      by (cases "bit_length (n div 2)") simp_all
    also from ih have "\<dots> \<le> 2 * (n div 2)" by simp
    also have "\<dots> \<le> n" by simp
    finally show ?thesis by (simp add: bl)
  qed
qed

lemma round_half_even_ge: "n div d \<le> round_half_even n d"
  by (simp add: round_half_even_def)

lemma nearest_double_overflow:
  assumes "2 ^ 1024 \<le> n"
  shows "nearest_double n 1 = None"
proof -
  from assms have n: "n \<noteq> 0" by (cases "n = 0") simp_all
  define b where "b = bit_length n - 1"
  from assms have "1024 < bit_length n" by (rule bit_length_gt)
  then have b: "1024 \<le> b" "bit_length n = Suc b" by (simp_all add: b_def)
  from bit_length_lower [OF n] have low: "2 ^ b \<le> n" by (simp add: b_def)
  then have "(of_nat (2 ^ b) :: rat) \<le> of_nat n" by (simp only: of_nat_le_iff)
  then have "pow2 (int b) \<le> of_nat n" by (simp add: pow2_def)
  then have e2: "binary_exponent n (Suc 0) = int b"
    by (simp add: binary_exponent_def bit_length_1 b(2) Let_def)
  define q where "q = b - 52"
  from b(1) have q: "max (int b) (- 1022) - 52 = int q" "b = q + 52" by (simp_all add: q_def)
  define m where "m = round_half_even n (2 ^ q)"
  have "2 ^ 52 * (2 :: nat) ^ q \<le> n" using low by (simp add: q(2) power_add mult.commute)
  then have "(2 ^ 52 * (2 :: nat) ^ q) div 2 ^ q \<le> n div 2 ^ q" by (rule div_le_mono)
  then have "2 ^ 52 \<le> n div 2 ^ q" by simp
  also have "\<dots> \<le> m" unfolding m_def by (rule round_half_even_ge)
  finally have "2 ^ 52 * (2 :: nat) ^ q \<le> m * 2 ^ q" by simp
  then have "(2 :: nat) ^ b \<le> m * 2 ^ q" by (simp add: q(2) power_add mult.commute)
  moreover from b(1) have "(2 :: nat) ^ 1024 \<le> 2 ^ b" by (rule power_increasing) simp
  ultimately have "(2 :: nat) ^ 1024 \<le> m * 2 ^ q" by (rule order_trans [rotated])
  then have "(of_nat (2 ^ 1024) :: rat) \<le> of_nat (m * 2 ^ q)" by (simp only: of_nat_le_iff)
  then have big: "(2 :: rat) ^ 1024 \<le> of_nat m * pow2 (int q)" by (simp add: pow2_def)
  have qq: "max (binary_exponent n (Suc 0)) (- 1022) - 52 = int q"
    using e2 q(1) by simp
  show ?thesis
    unfolding nearest_double_def Let_def One_nat_def qq
    using n big by (simp add: m_def)
qed

text \<open>Evaluation in three steps: the cleaning, the grammar, the rounding.\<close>

lemmas parser_eval =
  py_float_def float_strip_def is_float_space_def split_sign_def
  lower_def lower_char_def float_number_def digitpart_def is_digit_def float_exponent_def
  decimal_fraction_def digits_val_def digit_val_def

lemmas double_eval =
  double_of_def nearest_double_def binary_exponent_def bit_length.simps pow2_def
  round_half_even_def Let_def

lemmas amount_eval =
  parse_amount_def parse_amount_stmt_def parse_amount_body_def clean_amount_def str_cell_def
  strip_def is_space_def

lemma py_float_examples:
  "py_float ''1234567'' = Inr (double_of False 1234567 1)"
  "py_float ''100'' = Inr (double_of False 100 1)"
  "py_float ''250'' = Inr (double_of False 250 1)"
  "py_float ''500000'' = Inr (double_of False 500000 1)"
  "py_float ''abc'' = Inl ValueError"
  "py_float ''12abc'' = Inl ValueError"
  "py_float ''12USD'' = Inl ValueError"
  "py_float ''1.5'' = Inr (double_of False 15 10)"
  "py_float ''-2.50'' = Inr (double_of True 250 100)"
  "py_float ''0.1'' = Inr (double_of False 1 10)"
  "py_float ''1e3'' = Inr (double_of False 1000 1)"
  "py_float ''1_000'' = Inr (double_of False 1000 1)"
  "py_float ''-0'' = Inr (double_of True 0 1)"
  "py_float ''9007199254740993'' = Inr (double_of False 9007199254740993 1)"
  "py_float ''inf'' = Inr PosInf"
  "py_float ''NAN'' = Inr NaN"
  "py_float ''-Infinity'' = Inr NegInf"
  "py_float [CHR 0x1F, CHR ''5''] = Inl ValueError"
  by (simp_all add: parser_eval)

lemma py_float_1e309: "py_float ''1e309'' = Inr (double_of False (10 ^ 309) 1)"
  by (simp add: parser_eval)

lemma double_of_examples:
  "double_of False 1234567 1 = Finite 1234567"
  "double_of False 100 1 = Finite 100"
  "double_of False 250 1 = Finite 250"
  "double_of False 500000 1 = Finite 500000"
  "double_of False 15 10 = Finite (3 / 2)"
  "double_of True 250 100 = Finite (- 5 / 2)"
  "double_of False 1 10 = Finite (3602879701896397 / 36028797018963968)"
  "double_of False 1000 1 = Finite 1000"
  "double_of True 0 1 = NegZero"
  "double_of False 9007199254740993 1 = Finite 9007199254740992"
  by (simp_all add: double_eval)

lemma double_of_overflow: "double_of False (10 ^ 309) 1 = PosInf"
proof -
  have "(2 :: nat) ^ 1024 \<le> 10 ^ 309" by simp
  then have "nearest_double (10 ^ 309) 1 = None" by (rule nearest_double_overflow)
  then show ?thesis by (simp only: double_of_def option.case if_False)
qed

lemma parse_amount_examples:
  "parse_amount (Some ''1,234,567'') = Some (Finite 1234567)"
  "parse_amount (Some '''') = None"
  "parse_amount (Some ''nan'') = None"
  "parse_amount None = None"
  "parse_amount (Some ''abc'') = None"
  "parse_amount (Some ''12abc'') = None"
  "parse_amount (Some ''1.5'') = Some (Finite (3 / 2))"
  "parse_amount (Some '' -2.50 '') = Some (Finite (- 5 / 2))"
  "parse_amount (Some ''0.1'') = Some (Finite (3602879701896397 / 36028797018963968))"
  "parse_amount (Some ''1e3'') = Some (Finite 1000)"
  "parse_amount (Some ''1_000'') = Some (Finite 1000)"
  "parse_amount (Some ''-0'') = Some NegZero"
  "parse_amount (Some ''9007199254740993'') = Some (Finite 9007199254740992)"
  by (simp_all add: amount_eval py_float_examples double_of_examples del: One_nat_def)

lemma parse_amount_overflow: "parse_amount (Some ''1e309'') = Some PosInf"
  by (simp add: amount_eval py_float_1e309 double_of_overflow del: power_numeral One_nat_def)

lemma parse_amount_separator_1F:
  "parse_amount (Some [CHR '','', CHR 0x1F, CHR ''5'']) = None"
  by (simp add: amount_eval py_float_examples)

lemma parse_amount_words:
  "parse_amount (Some ''inf'') = Some PosInf"
  "parse_amount (Some ''NAN'') = Some NaN"
  "parse_amount (Some ''-Infinity'') = Some NegInf"
  by (simp_all add: amount_eval py_float_examples)

text \<open>
  C8 (as stated): for every raw amount string the parser yields the decimal it holds, and
  null for the empty string, the missing-value token and any other input. The text \<open>inf\<close>
  yields an infinity and the text \<open>NAN\<close> yields not-a-number, neither null nor a decimal:
  \<open>float\<close> accepts them, and only the lower-case \<open>nan\<close> is compared with the token.
\<close>

theorem amount_parser_accepts_inf_and_NAN:
  "parse_amount (Some ''inf'') = Some PosInf \<and> parse_amount (Some ''NAN'') = Some NaN"
  by (simp add: parse_amount_words)

text \<open>
  C8 (amended): the \<open>try\<close> statement never ends in an exception. The result is null for a
  missing cell, and for a text exactly when, after trimming and removal of commas and
  blanks, it is empty, is \<open>nan\<close> or is refused by \<open>float\<close>; otherwise it is the double that
  \<open>float\<close> returns. A digit string (with any commas and blanks) below \<open>2 ^ 53\<close> yields
  exactly its value; digits, a point and digits yield the double nearest to the decimal; a
  text with a character that is not a digit, a sign, a point, an underscore, whitespace or
  a letter of \<open>e\<close>, \<open>inf\<close>, \<open>infinity\<close>, \<open>nan\<close> yields null. The words \<open>inf\<close>, \<open>infinity\<close> and
  \<open>nan\<close> in other letter case than the token, exponents and underscores between digits
  are accepted, and a decimal of \<open>2 ^ 1024\<close> or more yields an infinity.
\<close>

theorem amount_parser_float_contract:
  "(\<exists>a. parse_amount_stmt t = Inr a)
   \<and> parse_amount None = None
   \<and> parse_amount (Some s)
       = (if clean_amount (strip s) = [] \<or> clean_amount (strip s) = ''nan'' then None
          else (case py_float (clean_amount (strip s)) of Inl e \<Rightarrow> None | Inr v \<Rightarrow> Some v))
   \<and> (ds \<noteq> [] \<and> list_all is_digit ds \<and> digits_val ds < 2 ^ 53
        \<and> clean_amount (strip s) = ds
       \<longrightarrow> parse_amount (Some s) = Some (Finite (of_nat (digits_val ds))))
   \<and> (ip \<noteq> [] \<and> list_all is_digit ip \<and> list_all is_digit fp
        \<and> clean_amount (strip s) = ip @ ''.'' @ fp
       \<longrightarrow> parse_amount (Some s)
           = Some (double_of False (digits_val (ip @ fp)) (10 ^ length fp)))
   \<and> (x \<in> set (clean_amount (strip s)) \<and> x \<notin> set ''0123456789+-.eE_infatyINFATY''
        \<and> \<not> is_float_space x
       \<longrightarrow> parse_amount (Some s) = None)
   \<and> parse_amount (Some ''1,234,567'') = Some (Finite 1234567)
   \<and> parse_amount (Some '''') = None
   \<and> parse_amount (Some ''nan'') = None
   \<and> parse_amount (Some ''abc'') = None
   \<and> parse_amount (Some ''12abc'') = None
   \<and> parse_amount (Some ''1.5'') = Some (Finite (3 / 2))
   \<and> parse_amount (Some '' -2.50 '') = Some (Finite (- 5 / 2))
   \<and> parse_amount (Some ''0.1'') = Some (Finite (3602879701896397 / 36028797018963968))
   \<and> parse_amount (Some ''9007199254740993'') = Some (Finite 9007199254740992)
   \<and> parse_amount (Some ''1e3'') = Some (Finite 1000)
   \<and> parse_amount (Some ''1_000'') = Some (Finite 1000)
   \<and> parse_amount (Some ''-0'') = Some NegZero
   \<and> parse_amount (Some ''1e309'') = Some PosInf
   \<and> parse_amount (Some ''-Infinity'') = Some NegInf
   \<and> parse_amount (Some [CHR '','', CHR 0x1F, CHR ''5'']) = None"
proof -
  have a: "\<exists>a. parse_amount_stmt t = Inr a" by (rule parse_amount_stmt_total)
  have b: "parse_amount (Some s)
       = (if clean_amount (strip s) = [] \<or> clean_amount (strip s) = ''nan'' then None
          else (case py_float (clean_amount (strip s)) of Inl e \<Rightarrow> None | Inr v \<Rightarrow> Some v))"
    by (simp add: parse_amount_def parse_amount_stmt_def parse_amount_body_def str_cell_def
          split: sum.splits)
  have c: "ds \<noteq> [] \<and> list_all is_digit ds \<and> digits_val ds < 2 ^ 53
        \<and> clean_amount (strip s) = ds
       \<longrightarrow> parse_amount (Some s) = Some (Finite (of_nat (digits_val ds)))"
    using parse_amount_digits [of ds s] by blast
  have d: "ip \<noteq> [] \<and> list_all is_digit ip \<and> list_all is_digit fp
        \<and> clean_amount (strip s) = ip @ ''.'' @ fp
       \<longrightarrow> parse_amount (Some s)
           = Some (double_of False (digits_val (ip @ fp)) (10 ^ length fp))"
  proof (intro impI, elim conjE)
    assume h: "ip \<noteq> []" "list_all is_digit ip" "list_all is_digit fp"
      "clean_amount (strip s) = ip @ ''.'' @ fp"
    show "parse_amount (Some s) = Some (double_of False (digits_val (ip @ fp)) (10 ^ length fp))"
      by (rule parse_amount_decimal [OF h(1,2,3)]) (simp_all add: h(4))
  qed
  have e: "x \<in> set (clean_amount (strip s)) \<and> x \<notin> set ''0123456789+-.eE_infatyINFATY''
        \<and> \<not> is_float_space x
       \<longrightarrow> parse_amount (Some s) = None"
    using parse_amount_rejects [of x s] by blast
  note ex = parse_amount_examples parse_amount_overflow parse_amount_separator_1F
    parse_amount_words
  show ?thesis
    apply (intro conjI)
    apply (rule a)
    apply (rule ex)
    apply (rule b)
    apply (rule c)
    apply (rule d)
    apply (rule e)
    apply (rule ex)+
    done
qed

theorem amount_parser_float_contract_witness:
  "parse_amount (Some ''  1,234,567 '') = Some (Finite 1234567)
   \<and> parse_amount (Some ''3.25'') = Some (Finite (13 / 4))
   \<and> parse_amount (Some ''12 USD'') = None"
proof -
  note t1 = amount_parser_float_contract
    [where s = "''  1,234,567 ''" and ds = "''1234567''" and t = "[]" and ip = "[]"
       and fp = "[]" and x = "CHR ''a''"]
  note t2 = amount_parser_float_contract
    [where s = "''3.25''" and ip = "''3''" and fp = "''25''" and t = "[]" and ds = "[]"
       and x = "CHR ''a''"]
  note t3 = amount_parser_float_contract
    [where s = "''12 USD''" and x = "CHR ''U''" and t = "[]" and ds = "[]" and ip = "[]"
       and fp = "[]"]
  note h1 = t1 [THEN conjunct2, THEN conjunct2, THEN conjunct2, THEN conjunct1]
  note h2 = t2 [THEN conjunct2, THEN conjunct2, THEN conjunct2, THEN conjunct2, THEN conjunct1]
  note h3 = t3 [THEN conjunct2, THEN conjunct2, THEN conjunct2, THEN conjunct2, THEN conjunct2,
                THEN conjunct1]
  have c1: "clean_amount (strip ''  1,234,567 '') = ''1234567''"
    by (simp add: clean_amount_def strip_def is_space_def)
  have c2: "clean_amount (strip ''3.25'') = ''3'' @ ''.'' @ ''25''"
    by (simp add: clean_amount_def strip_def is_space_def)
  have c3: "clean_amount (strip ''12 USD'') = ''12USD''"
    by (simp add: clean_amount_def strip_def is_space_def)
  have v1: "digits_val ''1234567'' = 1234567" "digits_val (''3'' @ ''25'') = 325"
    by (simp_all add: digits_val_def digit_val_def)
  have v2: "double_of False 325 (10 ^ length ''25'') = Finite (13 / 4)"
    by (simp add: double_eval)
  have d: "list_all is_digit ''1234567''" "list_all is_digit ''3''" "list_all is_digit ''25''"
    by (simp_all add: is_digit_def)
  have r1: "parse_amount (Some ''  1,234,567 '') = Some (Finite 1234567)"
    using h1 c1 d(1) by (simp add: v1)
  have r2: "parse_amount (Some ''3.25'') = Some (Finite (13 / 4))"
    using h2 d(2,3) by (simp only: c2 v1 v2) simp
  have r3: "parse_amount (Some ''12 USD'') = None"
    using h3 by (simp add: c3 is_float_space_def)
  from r1 r2 r3 show ?thesis by simp
qed

section \<open>Properties of the table builder\<close>

lemma index_of_Some:
  "index_of x xs = Some i \<Longrightarrow> i < length xs \<and> xs ! i = x"
proof (induction xs arbitrary: i)
  case Nil
  then show ?case by simp
next
  case (Cons y ys)
  show ?case
  proof (cases "x = y")
    case True
    with Cons.prems show ?thesis by simp
  next
    case False
    with Cons.prems obtain j where j: "index_of x ys = Some j" "i = Suc j" by auto
    from Cons.IH [OF j(1)] j(2) show ?thesis by simp
  qed
qed

lemma index_of_member:
  "x \<in> set xs \<Longrightarrow> \<exists>i. index_of x xs = Some i"
proof (induction xs)
  case Nil
  then show ?case by simp
next
  case (Cons y ys)
  show ?case
  proof (cases "x = y")
    case True
    then show ?thesis by simp
  next
    case False
    with Cons obtain i where "index_of x ys = Some i" by auto
    with False show ?thesis by simp
  qed
qed

lemma variants_loop_in_order:
  "variants_loop vs c m = Some code \<Longrightarrow> code \<in> set STANDARD_COLUMN_ORDER"
proof (induction vs)
  case Nil
  then show ?case by simp
next
  case (Cons v vs)
  show ?case
  proof (cases "lower v = lower m \<or> contains_str v m")
    case False
    with Cons show ?thesis by simp
  next
    case True
    show ?thesis
    proof (cases "map_of COUNTRY_CODES c")
      case None
      with True Cons.prems show ?thesis by simp
    next
      case (Some cc)
      show ?thesis
      proof (cases "cc \<in> set STANDARD_COLUMN_ORDER")
        case True
        with \<open>lower v = lower m \<or> contains_str v m\<close> Some Cons.prems show ?thesis by simp
      next
        case False
        with \<open>lower v = lower m \<or> contains_str v m\<close> Some Cons show ?thesis by simp
      qed
    qed
  qed
qed

lemma exact_tier_loop_in_order:
  "exact_tier_loop es m = Some code \<Longrightarrow> code \<in> set STANDARD_COLUMN_ORDER"
proof (induction es)
  case Nil
  then show ?case by simp
next
  case (Cons p es)
  obtain c vs where p: "p = (c, vs)" by (cases p)
  show ?case
  proof (cases "map_of COUNTRY_CODES c \<noteq> None")
    case False
    with Cons p show ?thesis by simp
  next
    case True
    show ?thesis
    proof (cases "variants_loop vs c m")
      case None
      with True Cons p show ?thesis by simp
    next
      case (Some cc)
      with True Cons.prems p have "cc = code" by simp
      with Some variants_loop_in_order show ?thesis by blast
    qed
  qed
qed

lemma simple_tier_loop_in_order:
  "simple_tier_loop cs m = Some code \<Longrightarrow> code \<in> set STANDARD_COLUMN_ORDER"
proof (induction cs)
  case Nil
  then show ?case by simp
next
  case (Cons c cs)
  show ?case
  proof (cases "map_of COUNTRY_CODES c")
    case None
    with Cons show ?thesis by simp
  next
    case (Some cc)
    show ?thesis
    proof (cases "lower c = lower m")
      case False
      with Some Cons show ?thesis by simp
    next
      case True
      show ?thesis
      proof (cases "cc \<in> set STANDARD_COLUMN_ORDER")
        case True
        with \<open>lower c = lower m\<close> Some Cons.prems show ?thesis by simp
      next
        case False
        with \<open>lower c = lower m\<close> Some Cons show ?thesis by simp
      qed
    qed
  qed
qed

lemma code_tier_body_in_order:
  "code_tier_body mc = Some code \<Longrightarrow> code \<in> set STANDARD_COLUMN_ORDER"
  unfolding code_tier_body_def by (simp split: option.splits if_splits)

lemma code_tier_loop_in_order:
  "code_tier_loop cs mc = Some code \<Longrightarrow> code \<in> set STANDARD_COLUMN_ORDER"
  by (cases "\<exists>p \<in> set cs. snd p \<in> set STANDARD_COLUMN_ORDER \<and> upper mc = country_prefix (fst p)
                        \<and> upper mc \<in> set code_whitelist")
     (simp_all only: code_tier_loop_summary if_True if_False code_tier_body_in_order option.distinct)

lemma resolve_country_in_order:
  assumes "resolve_country n mc = Some (t, code)"
  shows "code \<in> set STANDARD_COLUMN_ORDER"
proof (cases "code_tier_loop COUNTRY_CODES mc")
  case (Some c)
  with assms have "c = code" by (simp add: resolve_country_def)
  with Some code_tier_loop_in_order show ?thesis by blast
next
  case None
  show ?thesis
  proof (cases "exact_tier_loop exact_matches n")
    case (Some c)
    with None assms have "c = code" by (simp add: resolve_country_def)
    with Some exact_tier_loop_in_order show ?thesis by blast
  next
    case None2: None
    show ?thesis
    proof (cases "simple_tier_loop simple_country_names n")
      case (Some c)
      with None None2 assms have "c = code" by (simp add: resolve_country_def)
      with Some simple_tier_loop_in_order show ?thesis by blast
    next
      case None3: None
      with None None2 assms show ?thesis by (simp add: resolve_country_def)
    qed
  qed
qed

lemma process_row_pair:
  "process_row r d =
     (case resolved_pair r of
        None \<Rightarrow> d
      | Some (code, a) \<Rightarrow>
          (case index_of code STANDARD_COLUMN_ORDER of None \<Rightarrow> d
                                                              | Some idx \<Rightarrow> d[idx := Number a]))"
  by (simp add: process_row_def resolved_pair_def split: option.splits)

lemma process_row_length: "length (process_row r d) = length d"
  by (simp add: process_row_pair split: option.splits)

lemma fill_data_row_length: "length (fill_data_row rows d) = length d"
  unfolding fill_data_row_def by (induction rows arbitrary: d) (simp_all add: process_row_length)

lemma process_row_other_cell:
  assumes "index_of code STANDARD_COLUMN_ORDER = Some idx"
      and "\<forall>a. resolved_pair r \<noteq> Some (code, a)"
  shows "process_row r d ! idx = d ! idx"
proof (cases "resolved_pair r")
  case None
  then show ?thesis by (simp add: process_row_pair)
next
  case (Some p)
  obtain code' a' where p: "p = (code', a')" by (cases p)
  with Some assms(2) have ne: "code' \<noteq> code" by auto
  show ?thesis
  proof (cases "index_of code' STANDARD_COLUMN_ORDER")
    case None
    with Some p show ?thesis by (simp add: process_row_pair)
  next
    case (Some idx')
    from index_of_Some [OF Some] index_of_Some [OF assms(1)] ne have "idx' \<noteq> idx" by auto
    with Some \<open>resolved_pair r = Some p\<close> p show ?thesis by (simp add: process_row_pair)
  qed
qed

lemma fill_data_row_other_cell:
  assumes "index_of code STANDARD_COLUMN_ORDER = Some idx"
      and "\<forall>r \<in> set rows. \<forall>a. resolved_pair r \<noteq> Some (code, a)"
  shows "fill_data_row rows d ! idx = d ! idx"
  using assms(2) unfolding fill_data_row_def
proof (induction rows arbitrary: d)
  case Nil
  show ?case by simp
next
  case (Cons r rows)
  then have "fold process_row rows (process_row r d) ! idx = process_row r d ! idx" by simp
  also from Cons.prems have "\<dots> = d ! idx"
    by (intro process_row_other_cell [OF assms(1)]) simp
  finally show ?case by simp
qed

text \<open>
  C7: when two filtered records resolve to the same output code, the amount of the one
  that comes later in iteration order is the one left in the row-3 cell of that code
  (no record after it resolving to the same code).
\<close>

theorem last_write_wins:
  assumes "resolved_pair r1 = Some (code, a1)"
      and "resolved_pair r2 = Some (code, a2)"
      and "\<forall>r \<in> set after. \<forall>a. resolved_pair r \<noteq> Some (code, a)"
      and "length data_row = length STANDARD_COLUMN_ORDER"
  shows "\<exists>idx. index_of code STANDARD_COLUMN_ORDER = Some idx
           \<and> fill_data_row (before @ [r1] @ between @ [r2] @ after) data_row ! idx = Number a2"
proof -
  have "\<exists>t. resolve_country (member_name_of r2) (member_code_of r2) = Some (t, code)"
  proof (cases "parse_amount (Amount r2)")
    case None
    with assms(2) show ?thesis by (simp add: resolved_pair_def)
  next
    case (Some a)
    show ?thesis
    proof (cases "resolve_country (member_name_of r2) (member_code_of r2)")
      case None
      with Some assms(2) show ?thesis by (simp add: resolved_pair_def)
    next
      case res: (Some p)
      obtain t c where p: "p = (t, c)" by (cases p)
      from Some res p assms(2) have "c = code" by (simp add: resolved_pair_def)
      with res p show ?thesis by simp
    qed
  qed
  then obtain t where "resolve_country (member_name_of r2) (member_code_of r2) = Some (t, code)"
    by blast
  then have "code \<in> set STANDARD_COLUMN_ORDER" by (rule resolve_country_in_order)
  then have "\<exists>idx. index_of code STANDARD_COLUMN_ORDER = Some idx"
    by (rule index_of_member)
  then obtain idx where idx: "index_of code STANDARD_COLUMN_ORDER = Some idx" ..
  define d1 where "d1 = fill_data_row (before @ [r1] @ between) data_row"
  have "length d1 = length STANDARD_COLUMN_ORDER"
    unfolding d1_def by (simp only: fill_data_row_length assms(4))
  with index_of_Some [OF idx] have len: "idx < length d1" by simp
  have whole: "fill_data_row (before @ [r1] @ between @ [r2] @ after) data_row
               = fill_data_row after (process_row r2 d1)"
    unfolding d1_def fill_data_row_def by simp
  have step: "process_row r2 d1 = d1[idx := Number a2]"
    by (simp add: process_row_pair assms(2) idx)
  have "fill_data_row after (process_row r2 d1) ! idx = process_row r2 d1 ! idx"
    by (rule fill_data_row_other_cell [OF idx assms(3)])
  also have "\<dots> = Number a2"
    unfolding step using len by simp
  finally have "fill_data_row (before @ [r1] @ between @ [r2] @ after) data_row ! idx = Number a2"
    unfolding whole .
  with idx show ?thesis by blast
qed

lemma code_tier_body_RUS: "code_tier_body ''RUS'' = Some ''NABIMFD.RUS.M''"
  by (simp add: code_tier_body_def upper_def upper_char_table code_to_country_map_def
        COUNTRY_CODES_def STANDARD_COLUMN_ORDER_def)

lemma code_tier_RUS: "code_tier_loop COUNTRY_CODES ''RUS'' = Some ''NABIMFD.RUS.M''"
  by (simp add: code_tier_registry registry_prefixes code_tier_body_RUS code_whitelist_def
        upper_def upper_char_table)

lemma parse_amount_100: "parse_amount (Some ''100'') = Some (Finite 100)"
  by (simp add: amount_eval py_float_examples double_of_examples del: One_nat_def)

lemma parse_amount_250: "parse_amount (Some ''250'') = Some (Finite 250)"
  by (simp add: amount_eval py_float_examples double_of_examples del: One_nat_def)

lemma resolved_pair_RUS:
  "resolved_pair \<lparr>Member_Lender = Some n, Member_Code = Some ''RUS'', Type_col = None,
      Facility = Some ''New Arrangement to Borrow'', Start_Date = None,
      Expiration_of_Term = None, Revolving = None, Amount = a, Currency = None,
      Amount_Outstanding_SDR = None, Status = None\<rparr>
   = map_option (Pair ''NABIMFD.RUS.M'') (parse_amount a)"
  by (simp add: resolved_pair_def member_code_of_def strip_def is_space_def resolve_country_def
        code_tier_RUS split: option.splits)

theorem last_write_wins_witness:
  "\<exists>idx. index_of ''NABIMFD.RUS.M'' STANDARD_COLUMN_ORDER = Some idx
     \<and> fill_data_row
         ([] @ [\<lparr>Member_Lender = Some ''Russian Federation'', Member_Code = Some ''RUS'',
                  Type_col = None, Facility = Some ''New Arrangement to Borrow'',
                  Start_Date = None, Expiration_of_Term = None, Revolving = None,
                  Amount = Some ''100'', Currency = None, Amount_Outstanding_SDR = None,
                  Status = None\<rparr>]
          @ [] @ [\<lparr>Member_Lender = Some ''Russia'', Member_Code = Some ''RUS'',
                  Type_col = None, Facility = Some ''New Arrangement to Borrow'',
                  Start_Date = None, Expiration_of_Term = None, Revolving = None,
                  Amount = Some ''250'', Currency = None, Amount_Outstanding_SDR = None,
                  Status = None\<rparr>]
          @ []) (initial_data_row ''2025-06'') ! idx = Number (Finite 250)"
  by (rule last_write_wins [where ?a1.0 = "Finite 100"])
     (simp_all add: resolved_pair_RUS parse_amount_100 parse_amount_250 initial_data_row_def
        STANDARD_COLUMN_ORDER_def)

section \<open>Properties of the cleaning step and the filter stage\<close>

lemma contains_Member_abc: "\<not> contains_str ''Member'' ''Norway''"
  by (simp add: starts_with_Cons_if contains_str_Cons_if
           del: starts_with.simps(3) contains_str.simps(2))

lemma parse_amount_abc: "parse_amount (Some ''abc'') = None"
  by (simp add: amount_eval py_float_examples double_of_examples del: One_nat_def)

text \<open>
  C4 (as stated): a parsed record whose trimmed facility is \<open>New Arrangement to Borrow\<close>
  survives the filter stage even if its amount is missing. A record with a missing amount
  is removed by \<open>dropna\<close>, before the facility filter is applied.
\<close>

theorem missing_amount_removed_before_filter:
  "facility_matches \<lparr>Member_Lender = Some ''Norway'', Member_Code = Some ''NOR'',
       Type_col = None, Facility = Some ''New Arrangement to Borrow'', Start_Date = None,
       Expiration_of_Term = None, Revolving = None, Amount = None, Currency = None,
       Amount_Outstanding_SDR = None, Status = None\<rparr>
   \<and> filtered_df (clean_df [\<lparr>Member_Lender = Some ''Norway'', Member_Code = Some ''NOR'',
       Type_col = None, Facility = Some ''New Arrangement to Borrow'', Start_Date = None,
       Expiration_of_Term = None, Revolving = None, Amount = None, Currency = None,
       Amount_Outstanding_SDR = None, Status = None\<rparr>]) = []"
  by (simp add: facility_matches_def facility_filter_def strip_def is_space_def filtered_df_def
        clean_df_def dropna_subset_def remove_header_rows_def)

text \<open>
  C4 (amended): the facility filter does not look at the amount. A record whose trimmed
  facility is \<open>New Arrangement to Borrow\<close> is among the filtered records exactly when it is
  in the table read, its member and amount cells are present and its member text does not
  contain \<open>Member\<close>, whatever the amount text is; if that text does not parse, the record is
  left out only by the mapping loop, which leaves the data row unchanged.
\<close>

theorem filter_ignores_amount_text:
  assumes "Facility r = Some f" and "strip f = ''New Arrangement to Borrow''"
  shows "(r \<in> set (filtered_df (clean_df df)))
           = (r \<in> set df \<and> Member_Lender r \<noteq> None \<and> Amount r \<noteq> None
              \<and> \<not> contains_str ''Member'' (str_cell (Member_Lender r)))
         \<and> (parse_amount (Amount r) = None \<longrightarrow> process_row r data_row = data_row)"
proof -
  from assms have fm: "facility_matches r"
    by (simp add: facility_matches_def facility_filter_def)
  have a: "(r \<in> set (filtered_df (clean_df df)))
           = (r \<in> set df \<and> Member_Lender r \<noteq> None \<and> Amount r \<noteq> None
              \<and> \<not> contains_str ''Member'' (str_cell (Member_Lender r)))"
    using fm assms(1)
    by (cases "Member_Lender r")
       (auto simp: filtered_df_def clean_df_def dropna_subset_def remove_header_rows_def
          str_cell_def)
  have b: "parse_amount (Amount r) = None \<longrightarrow> process_row r data_row = data_row"
    by (simp add: process_row_def)
  from a b show ?thesis by simp
qed

theorem filter_ignores_amount_text_witness:
  "(\<lparr>Member_Lender = Some ''Norway'', Member_Code = Some ''NOR'',
       Type_col = None, Facility = Some ''New Arrangement to Borrow  '', Start_Date = None,
       Expiration_of_Term = None, Revolving = None, Amount = Some ''abc'', Currency = None,
       Amount_Outstanding_SDR = None, Status = None\<rparr>
     \<in> set (filtered_df (clean_df [\<lparr>Member_Lender = Some ''Norway'', Member_Code = Some ''NOR'',
       Type_col = None, Facility = Some ''New Arrangement to Borrow  '', Start_Date = None,
       Expiration_of_Term = None, Revolving = None, Amount = Some ''abc'', Currency = None,
       Amount_Outstanding_SDR = None, Status = None\<rparr>])))
   \<and> process_row \<lparr>Member_Lender = Some ''Norway'', Member_Code = Some ''NOR'',
       Type_col = None, Facility = Some ''New Arrangement to Borrow  '', Start_Date = None,
       Expiration_of_Term = None, Revolving = None, Amount = Some ''abc'', Currency = None,
       Amount_Outstanding_SDR = None, Status = None\<rparr> [Text ''2025-06'', Empty]
     = [Text ''2025-06'', Empty]"
proof -
  let ?r = "\<lparr>Member_Lender = Some ''Norway'', Member_Code = Some ''NOR'',
       Type_col = None, Facility = Some ''New Arrangement to Borrow  '', Start_Date = None,
       Expiration_of_Term = None, Revolving = None, Amount = Some ''abc'', Currency = None,
       Amount_Outstanding_SDR = None, Status = None\<rparr>"
  have f: "Facility ?r = Some ''New Arrangement to Borrow  ''" by simp
  have s: "strip ''New Arrangement to Borrow  '' = ''New Arrangement to Borrow''"
    by (simp add: strip_def is_space_def)
  have p: "parse_amount (Amount ?r) = None"
    using parse_amount_abc by simp
  from filter_ignores_amount_text [OF f s, of "[?r]" "[Text ''2025-06'', Empty]"] p
       contains_Member_abc
  show ?thesis by (simp add: str_cell_def)
qed

section \<open>Properties of the Mapper process and the orchestrator\<close>

lemma output_path_differs:
  "summary_file_path \<noteq> output_file_path" "source_file_path \<noteq> output_file_path"
  "source_file_path \<noteq> summary_file_path"
  by (simp_all add: summary_file_path_def output_file_path_def source_file_path_def)

lemma map_process_write_failure:
  assumes "write_result m = Inl e" and "source_file_path \<in> files m"
      and "source_table m = Inr df"
  shows "map_process now m
         = (Unexpected_Error e, 0,
            if partial_output_left m then insert output_file_path (files m) else files m)"
  using assms by (simp add: map_process_def)

text \<open>
  C6 (as stated): when writing the output fails, the Mapper reports a fatal error to its
  caller and the pipeline exits with a non-zero status. With a write that raises an
  \<open>OSError\<close>, the Mapper process ends with exit status 0, and when a file
  \<open>nabimfd_summary.xlsx\<close> is present the orchestrator exits with status 0 too.
\<close>

theorem write_failure_exit_status_zero:
  "map_process (2026, 11)
     \<lparr>files = {source_file_path, summary_file_path}, source_text = Inr ''As of: June 30, 2025'',
      source_table = Inr [], write_result = Inl OSError, partial_output_left = False\<rparr>
     = (Unexpected_Error OSError, 0, {source_file_path, summary_file_path})
   \<and> orchestrator_exit_status (2026, 11)
       \<lparr>requirements_ok = True, extraction_ok = True, mapper_timed_out = False,
        mapper = \<lparr>files = {source_file_path, summary_file_path},
                  source_text = Inr ''As of: June 30, 2025'', source_table = Inr [],
                  write_result = Inl OSError, partial_output_left = False\<rparr>\<rparr> = 0"
  by (simp add: map_process_def orchestrator_exit_status_def run_pipeline_def
        run_data_processing_def generate_summary_def)

text \<open>
  C6 (amended): when writing the output fails, the Mapper catches the error, prints it and
  ends with exit status 0; the orchestrator then exits with status 0 if the requirements
  check and the extraction phase passed, the Mapper did not time out and
  \<open>nabimfd_summary.xlsx\<close> is present in the script directory, and with status 1 otherwise.
\<close>

theorem write_failure_not_reported:
  assumes "write_result (mapper env) = Inl e"
      and "source_file_path \<in> files (mapper env)"
      and "source_table (mapper env) = Inr df"
  shows "fst (map_process now (mapper env)) = Unexpected_Error e
         \<and> fst (snd (map_process now (mapper env))) = 0
         \<and> orchestrator_exit_status now env
             = (if requirements_ok env \<and> extraction_ok env \<and> \<not> mapper_timed_out env
                   \<and> summary_file_path \<in> files (mapper env)
                then 0 else 1)"
proof -
  note mp = map_process_write_failure [OF assms, of now]
  have a: "fst (map_process now (mapper env)) = Unexpected_Error e"
    by (simp add: mp)
  have b: "fst (snd (map_process now (mapper env))) = 0"
    by (simp add: mp)
  have c: "run_data_processing now env
           = (\<not> mapper_timed_out env \<and> summary_file_path \<in> files (mapper env))"
    by (simp add: run_data_processing_def mp output_path_differs)
  have d: "generate_summary now env = (summary_file_path \<in> files (mapper env))"
    using assms(2) by (simp add: generate_summary_def mp output_path_differs)
  have "orchestrator_exit_status now env
          = (if requirements_ok env \<and> extraction_ok env \<and> \<not> mapper_timed_out env
                \<and> summary_file_path \<in> files (mapper env)
             then 0 else 1)"
    by (simp add: orchestrator_exit_status_def run_pipeline_def c d)
  with a b show ?thesis by simp
qed

theorem write_failure_not_reported_witness:
  "fst (map_process (2026, 11)
     \<lparr>files = {source_file_path}, source_text = Inr ''As of: June 30, 2025'',
      source_table = Inr [], write_result = Inl OSError, partial_output_left = False\<rparr>)
     = Unexpected_Error OSError
   \<and> fst (snd (map_process (2026, 11)
     \<lparr>files = {source_file_path}, source_text = Inr ''As of: June 30, 2025'',
      source_table = Inr [], write_result = Inl OSError, partial_output_left = False\<rparr>)) = 0
   \<and> orchestrator_exit_status (2026, 11)
       \<lparr>requirements_ok = True, extraction_ok = True, mapper_timed_out = False,
        mapper = \<lparr>files = {source_file_path}, source_text = Inr ''As of: June 30, 2025'',
                  source_table = Inr [], write_result = Inl OSError,
                  partial_output_left = False\<rparr>\<rparr> = 1"
  using write_failure_not_reported
    [of "\<lparr>requirements_ok = True, extraction_ok = True, mapper_timed_out = False,
        mapper = \<lparr>files = {source_file_path}, source_text = Inr ''As of: June 30, 2025'',
                  source_table = Inr [], write_result = Inl OSError,
                  partial_output_left = False\<rparr>\<rparr>" OSError "[]" "(2026, 11)"]
  by (simp add: summary_file_path_def source_file_path_def)

section \<open>Properties of the date extractor\<close>

lemma re_search_at_start: "p s = Some r \<Longrightarrow> re_search p s = Some r"
  by (cases s) simp_all

lemma date_at_June_30_2025: "date_at ''June 30, 2025'' = Some (6, ''30'', ''2025'')"
  by (simp add: date_at_def month_names_def lower_char_table is_space_def is_digit_def Let_def)

lemma date_at_September_5_2024:
  "date_at ''September 5, 2024'' = Some (9, ''5'', ''2024'')"
  by (simp add: date_at_def month_names_def lower_char_table is_space_def is_digit_def Let_def)

lemma date_at_February_30_2024:
  "date_at ''February 30, 2024'' = Some (2, ''30'', ''2024'')"
  by (simp add: date_at_def month_names_def lower_char_table is_space_def is_digit_def Let_def)

lemma format_June_30_2025: "format_match (6, ''30'', ''2025'') = Inr ''2025-06''"
  by (simp add: format_match_def strptime_ym_def days_in_month_def is_leap_def digits_val_def
        digit_val_def strftime_ym_def digit_char_def)

lemma format_September_5_2024: "format_match (9, ''5'', ''2024'') = Inr ''2024-09''"
  by (simp add: format_match_def strptime_ym_def days_in_month_def is_leap_def digits_val_def
        digit_val_def strftime_ym_def digit_char_def)

lemma format_February_30_2024: "format_match (2, ''30'', ''2024'') = Inl ValueError"
  by (simp add: format_match_def strptime_ym_def days_in_month_def is_leap_def digits_val_def
        digit_val_def)

lemma as_of_1_September:
  "as_of_1_at ''As of: September 5, 2024'' = Some ''September 5, 2024''"
  by (simp add: as_of_1_at_def capture_group_def lower_char_table is_space_def
        not_line_break_def)

lemma as_of_1_February:
  "as_of_1_at ''As of: February 30, 2024'' = Some ''February 30, 2024''"
  by (simp add: as_of_1_at_def capture_group_def lower_char_table is_space_def
        not_line_break_def)

lemma strip_September: "strip ''September 5, 2024'' = ''September 5, 2024''"
  by (simp add: strip_def is_space_def)

lemma strip_February: "strip ''February 30, 2024'' = ''February 30, 2024''"
  by (simp add: strip_def is_space_def)

lemma try_patterns_first:
  assumes "re_search as_of_1_at content = Some cap"
      and "re_search date_at (strip cap) = Some m"
  shows "try_patterns as_of_patterns content = Some (format_match m)"
  by (simp add: as_of_patterns_def assms)

lemma extract_as_of:
  assumes "re_search as_of_1_at content = Some cap"
      and "re_search date_at (strip cap) = Some m"
  shows "extract_date_from_tsv_file now (Inr content)
         = (case format_match m of Inl e \<Rightarrow> strftime_ym now | Inr d \<Rightarrow> d)"
  by (simp add: extract_date_from_tsv_file_def extract_body_def try_patterns_first [OF assms])

lemma extract_September:
  "extract_date_from_tsv_file now (Inr ''As of: September 5, 2024'') = ''2024-09''"
proof -
  have a: "re_search as_of_1_at ''As of: September 5, 2024'' = Some ''September 5, 2024''"
    by (rule re_search_at_start) (rule as_of_1_September)
  have b: "re_search date_at (strip ''September 5, 2024'') = Some (9, ''5'', ''2024'')"
    unfolding strip_September by (rule re_search_at_start) (rule date_at_September_5_2024)
  show ?thesis by (simp add: extract_as_of [OF a b] format_September_5_2024)
qed

text \<open>
  C3 (as stated): whenever an \<open>As of:\<close> line holds text of the form
  \<open><Month> <day>[,] <year>\<close>, that date is returned as YYYY-MM. For
  \<open>As of: February 30, 2024\<close> the pattern matches, \<open>strptime\<close> raises, and the function
  returns the current month (here November 2026), not \<open>2024-02\<close>.
\<close>

theorem as_of_invalid_day_gives_current_month:
  "re_search as_of_1_at ''As of: February 30, 2024'' = Some ''February 30, 2024''
   \<and> re_search date_at ''February 30, 2024'' = Some (2, ''30'', ''2024'')
   \<and> extract_date_from_tsv_file (2026, 11) (Inr ''As of: February 30, 2024'') = ''2026-11''
   \<and> ''2026-11'' \<noteq> ''2024-02''"
proof -
  have a: "re_search as_of_1_at ''As of: February 30, 2024'' = Some ''February 30, 2024''"
    by (rule re_search_at_start) (rule as_of_1_February)
  have b0: "re_search date_at ''February 30, 2024'' = Some (2, ''30'', ''2024'')"
    by (rule re_search_at_start) (rule date_at_February_30_2024)
  then have b: "re_search date_at (strip ''February 30, 2024'') = Some (2, ''30'', ''2024'')"
    by (simp only: strip_February)
  have c: "extract_date_from_tsv_file (2026, 11) (Inr ''As of: February 30, 2024'') = ''2026-11''"
    by (simp add: extract_as_of [OF a b] format_February_30_2024 strftime_ym_def digit_char_def)
  from a b0 c show ?thesis by simp
qed

end
